theory Spec2Isabelle
  imports Complex_Main "HOL-Library.Word" "HOL-Library.AList"
begin

section \<open>Python values and exceptions\<close>

text \<open>
  The installer (\<^verbatim>\<open>installer.py\<close>, class \<^verbatim>\<open>AppInstaller\<close>) is a sequence of steps that
  talk to the network, the file system and subprocesses.  Its decisions rest on three
  kinds of handler: \<^verbatim>\<open>except Exception\<close>, \<^verbatim>\<open>except KeyboardInterrupt\<close> and the bare
  \<^verbatim>\<open>except:\<close>.  Python's \<^verbatim>\<open>KeyboardInterrupt\<close> derives from \<^verbatim>\<open>BaseException\<close> and not
  from \<^verbatim>\<open>Exception\<close>, so the first handler lets it pass and the last one catches it.
  The model keeps exactly this distinction: \<open>Exception\<close> stands for any instance of the
  class \<^verbatim>\<open>Exception\<close> (HTTP errors, OS errors, \<^verbatim>\<open>TypeError\<close>, \<^verbatim>\<open>AttributeError\<close>, ...).
\<close>

datatype exn = Exception | KeyboardInterrupt

datatype 'a outcome = Returns 'a | Raises exn

text \<open>
  A JSON document as \<^verbatim>\<open>json.loads\<close> and \<^verbatim>\<open>response.json()\<close> deliver it.  An object
  carries its items in insertion order (the order \<^verbatim>\<open>dict.items()\<close> iterates in).  A
  number carries its exact value: Python compares \<^verbatim>\<open>int\<close> with \<^verbatim>\<open>int\<close> or \<^verbatim>\<open>float\<close> by
  value, which is all the installer does with a number.
\<close>

datatype json =
    JNull
  | JBool bool
  | JNum rat
  | JStr string
  | JArr "json list"
  | JObj "(string \<times> json) list"

text \<open>\<^verbatim>\<open>x.get(key, default)\<close>: only a dict has the method (\<^verbatim>\<open>AttributeError\<close> otherwise).\<close>

definition dict_get :: "json \<Rightarrow> string \<Rightarrow> json \<Rightarrow> json outcome" where
  "dict_get x key dflt =
     (case x of
        JObj kvs \<Rightarrow> Returns (case map_of kvs key of Some v \<Rightarrow> v | None \<Rightarrow> dflt)
      | _ \<Rightarrow> Raises Exception)"

text \<open>\<^verbatim>\<open>len(x)\<close>: defined for dict, list and str (\<^verbatim>\<open>TypeError\<close> otherwise).\<close>

definition py_len :: "json \<Rightarrow> nat outcome" where
  "py_len x =
     (case x of
        JObj kvs \<Rightarrow> Returns (length kvs)
      | JArr xs \<Rightarrow> Returns (length xs)
      | JStr s \<Rightarrow> Returns (length s)
      | _ \<Rightarrow> Raises Exception)"

text \<open>\<^verbatim>\<open>x.items()\<close>: only a dict has the method.\<close>

definition dict_items :: "json \<Rightarrow> (string \<times> json) list outcome" where
  "dict_items x = (case x of JObj kvs \<Rightarrow> Returns kvs | _ \<Rightarrow> Raises Exception)"

text \<open>
  \<^verbatim>\<open>n == v\<close> for a byte count \<open>n\<close> and a JSON value \<open>v\<close>.  A number is compared by
  value, \<^verbatim>\<open>True\<close> and \<^verbatim>\<open>False\<close> are the integers 1 and 0, anything else is unequal.
\<close>

definition py_eq_size :: "nat \<Rightarrow> json \<Rightarrow> bool" where
  "py_eq_size n v =
     (case v of
        JNum q \<Rightarrow> of_nat n = q
      | JBool b \<Rightarrow> n = (if b then 1 else 0)
      | _ \<Rightarrow> False)"

section \<open>The file system\<close>

text \<open>
  A file has its bytes and its metadata (what \<^verbatim>\<open>shutil.copy2\<close> carries over with
  \<^verbatim>\<open>copystat\<close>); a directory has its entries, in the order a listing yields them.  A
  new entry is appended to a listing; an existing one keeps its place.
\<close>

type_synonym bytes = "8 word list"
type_synonym meta = nat

datatype node = File bytes meta | Dir "(string \<times> node) list"

type_synonym entries = "(string \<times> node) list"

text \<open>
  \<^verbatim>\<open>shutil.copy2(src, d / name)\<close> for a source file with bytes \<open>data\<close> and metadata
  \<open>m\<close>, where \<open>es\<close> lists the directory \<open>d\<close>.  When the destination is an existing
  directory the file is copied into it under the source's base name (and that fails
  with \<^verbatim>\<open>IsADirectoryError\<close> when a directory has that name too); otherwise the
  destination is created or overwritten.
\<close>

definition copy2 :: "string \<Rightarrow> bytes \<Rightarrow> meta \<Rightarrow> entries \<Rightarrow> entries outcome" where
  "copy2 name data m es =
     (case map_of es name of
        Some (Dir sub) \<Rightarrow>
          (case map_of sub name of
             Some (Dir _) \<Rightarrow> Raises Exception
           | _ \<Rightarrow> Returns (AList.update name (Dir (AList.update name (File data m) sub)) es))
      | _ \<Rightarrow> Returns (AList.update name (File data m) es))"

text \<open>
  The loop of \<^verbatim>\<open>shutil.copytree\<close> over the entries of the source directory, copying
  into a destination directory that exists by now and lists \<open>dst\<close>.  A file is copied
  with \<open>copy2\<close>; a directory is copied by the recursive call, which first runs
  \<^verbatim>\<open>os.makedirs(dst, exist_ok=dirs_exist_ok)\<close>.  An \<^verbatim>\<open>OSError\<close> of one entry is recorded and
  the loop goes on with the next entry; the flag returned says whether any was recorded
  (\<^verbatim>\<open>copytree\<close> then raises \<^verbatim>\<open>shutil.Error\<close> after the loop).
\<close>

function copy_entries :: "bool \<Rightarrow> entries \<Rightarrow> entries \<Rightarrow> bool \<times> entries" where
  "copy_entries dirs_exist_ok [] dst = (False, dst)"
| "copy_entries dirs_exist_ok ((name, File data m) # rest) dst =
     (case copy2 name data m dst of
        Raises _ \<Rightarrow> (True, snd (copy_entries dirs_exist_ok rest dst))
      | Returns dst' \<Rightarrow> copy_entries dirs_exist_ok rest dst')"
| "copy_entries dirs_exist_ok ((name, Dir sub) # rest) dst =
     (case map_of dst name of
        Some (File _ _) \<Rightarrow> (True, snd (copy_entries dirs_exist_ok rest dst))
      | Some (Dir old) \<Rightarrow>
          (if dirs_exist_ok then
             (let (err1, new) = copy_entries dirs_exist_ok sub old;
                  (err2, r) = copy_entries dirs_exist_ok rest (AList.update name (Dir new) dst)
              in (err1 \<or> err2, r))
           else (True, snd (copy_entries dirs_exist_ok rest dst)))
      | None \<Rightarrow>
          (let (err1, new) = copy_entries dirs_exist_ok sub [];
               (err2, r) = copy_entries dirs_exist_ok rest (AList.update name (Dir new) dst)
           in (err1 \<or> err2, r)))"
  by pat_completeness auto
termination
  by (relation "measure (\<lambda>(dirs_exist_ok, src, dst). size (Dir src))") auto

text \<open>
  \<^verbatim>\<open>shutil.copytree(src, d / name, dirs_exist_ok=...)\<close> for a source directory listing
  \<open>sub\<close>.  \<^verbatim>\<open>os.makedirs\<close> raises \<^verbatim>\<open>FileExistsError\<close> at once when the destination is a
  file, or a directory while \<^verbatim>\<open>dirs_exist_ok\<close> is false.  The result is the exception
  raised, if any, and the directory as the call leaves it (entries copied before an
  error stay).
\<close>

definition copytree :: "bool \<Rightarrow> string \<Rightarrow> entries \<Rightarrow> entries \<Rightarrow> exn option \<times> entries" where
  "copytree dirs_exist_ok name sub es =
     (case map_of es name of
        Some (File _ _) \<Rightarrow> (Some Exception, es)
      | Some (Dir old) \<Rightarrow>
          (if dirs_exist_ok then
             (let (err, new) = copy_entries dirs_exist_ok sub old
              in (if err then Some Exception else None, AList.update name (Dir new) es))
           else (Some Exception, es))
      | None \<Rightarrow>
          (let (err, new) = copy_entries dirs_exist_ok sub []
           in (if err then Some Exception else None, AList.update name (Dir new) es)))"

text \<open>
  One member of a ZIP archive, as \<^verbatim>\<open>ZipFile.extractall\<close> sees it: a relative path
  (\<^verbatim>\<open>zipfile\<close> strips drive letters, leading separators and \<^verbatim>\<open>..\<close> components) that names
  a file with its bytes, or a directory.
\<close>

datatype member = Member_file "string list" bytes | Member_dir "string list"

text \<open>
  Extraction of one member below a directory listing \<open>es\<close>: missing parent
  directories are made, a file is created or overwritten (\<open>Some\<close> the file), a
  directory is made unless it exists (\<open>None\<close>).  A path that runs through a file, a
  file written onto a directory and a directory made where a file stands all raise.
\<close>

fun extract_at :: "string list \<Rightarrow> node option \<Rightarrow> entries \<Rightarrow> entries outcome" where
  "extract_at [] f es = (case f of None \<Rightarrow> Returns es | Some _ \<Rightarrow> Raises Exception)"
| "extract_at [name] f es =
     (case f of
        Some file \<Rightarrow>
          (case map_of es name of
             Some (Dir _) \<Rightarrow> Raises Exception
           | _ \<Rightarrow> Returns (AList.update name file es))
      | None \<Rightarrow>
          (case map_of es name of
             Some (Dir _) \<Rightarrow> Returns es
           | Some (File _ _) \<Rightarrow> Raises Exception
           | None \<Rightarrow> Returns (AList.update name (Dir []) es)))"
| "extract_at (name # path) f es =
     (case map_of es name of
        Some (File _ _) \<Rightarrow> Raises Exception
      | Some (Dir sub) \<Rightarrow>
          (case extract_at path f sub of
             Raises e \<Rightarrow> Raises e
           | Returns sub' \<Rightarrow> Returns (AList.update name (Dir sub') es))
      | None \<Rightarrow>
          (case extract_at path f [] of
             Raises e \<Rightarrow> Raises e
           | Returns sub' \<Rightarrow> Returns (AList.update name (Dir sub') es)))"

section \<open>The environment and the installer's state\<close>

text \<open>
  An HTTP response as \<^verbatim>\<open>requests.get\<close> returns it: the status code, the
  \<^verbatim>\<open>content-length\<close> header as \<^verbatim>\<open>int(...)\<close> reads it (missing, an integer, or text that
  \<^verbatim>\<open>int\<close> rejects with \<^verbatim>\<open>ValueError\<close>), the chunks \<^verbatim>\<open>iter_content\<close> yields, the exception
  that ends the stream after these chunks (if the transfer breaks), and what
  \<^verbatim>\<open>response.json()\<close> gives.
\<close>

datatype header = Missing | Numeric int | Malformed

record response =
  status_code :: nat
  content_length :: header
  chunks :: "bytes list"
  stream_error :: "exn option"
  json_body :: "json outcome"

text \<open>
  The library calls that reach the file system, a subprocess or the desktop, each at
  the place the installer makes it.  The environment says for each whether it raises
  for a reason outside the model (permissions, a full disk, a failing subprocess, an
  interrupt); a call that raises so has no effect, except the \<^verbatim>\<open>rmtree\<close> of \<^verbatim>\<open>cleanup\<close>,
  which may have removed part of the directory's contents before it raises.
\<close>

datatype call =
    Mkdir_install
  | Mkdir_temp
  | Open_wb string
  | Extract "string list"
  | Flatten_copy2 string
  | Flatten_copytree string
  | Pip_upgrade
  | Pip_install_requirements
  | Pip_install_PyQt6
  | Install_copy2 string
  | Install_rmtree string
  | Install_copytree string
  | Platform_shortcut
  | Chdir
  | Os_system
  | Cleanup_rmtree

text \<open>
  Everything outside the installer: the answer to each HTTP request (by URL), the
  standard library's decoders the installer calls but does not contain
  (\<^verbatim>\<open>json.loads(base64.b64decode(c).decode())\<close> by the string \<open>c\<close>; the members of the
  archive \<^verbatim>\<open>zipfile.ZipFile\<close> reads from the downloaded bytes), the metadata a newly
  written file gets, the size \<^verbatim>\<open>stat\<close> reports for a directory, what a failing
  \<^verbatim>\<open>shutil.rmtree\<close> of the staging directory leaves of its entries, the platform name, and
  the line typed at the final prompt.  Every call to the outside returns or raises; a
  request that never answers is not modelled.
\<close>

record env =
  requests_get :: "string \<Rightarrow> response outcome"
  decode_content :: "string \<Rightarrow> json outcome"
  zip_members :: "bytes \<Rightarrow> member list outcome"
  fault :: "call \<Rightarrow> exn option"
  new_meta :: meta
  dir_st_size :: nat
  rmtree_remains :: "entries \<Rightarrow> entries"
  platform_system :: string
  stdin_line :: "string outcome"

text \<open>One constructor for each \<^verbatim>\<open>print\<close> of the source, in source order.\<close>

datatype msg =
    Banner
  | Step1_checking_internet | Internet_OK | No_internet | Please_connect
  | Step2_preparing | Install_dir_ready | Mkdir_failed
  | Download_failed string
  | Step3_fetching_list | Found_files nat | Manifest_warning | Using_default_list
  | Step4_downloading | No_files | Downloading_n nat | Size_mismatch string
  | Downloaded_count nat nat
  | Step4_downloading_zip | Step5_extracting | Files_extracted | Extract_failed
  | Step6_dependencies | Installing_requirements | Dependencies_installed
  | Dependencies_warning | Install_manually | PyQt6_installed | Skipping_dependencies
  | Step7_installing | Files_installed | Copy_failed
  | Step8_shortcuts | Shortcuts_created | Shortcut_warning
  | Trying_individual
  | Rule_line | Installation_complete | Installed_to | Install_path | To_start
  | Look_for_shortcut | Or_run | Launch_prompt | Launching
  | Installation_cancelled | Installation_failed | Traceback

text \<open>
  The state a run changes: what stands at the install target
  (\<^verbatim>\<open>self.install_dir\<close>) and at the staging path (\<^verbatim>\<open>self.temp_dir\<close>), \<open>None\<close> when nothing
  exists there; \<^verbatim>\<open>self.manifest\<close>; and the console, the messages printed so far.
\<close>

record state =
  install_dir :: "node option"
  temp_dir :: "node option"
  manifest :: json
  console :: "msg list"

text \<open>
  A method of the installer takes the state and gives what it returns or raises,
  and the state it leaves.
\<close>

type_synonym 'a io = "state \<Rightarrow> 'a outcome \<times> state"

definition ret :: "'a \<Rightarrow> 'a io" where
  "ret x s = (Returns x, s)"

definition bind :: "'a io \<Rightarrow> ('a \<Rightarrow> 'b io) \<Rightarrow> 'b io" where
  "bind m f s =
     (case m s of
        (Returns x, s') \<Rightarrow> f x s'
      | (Raises e, s') \<Rightarrow> (Raises e, s'))"

definition lift :: "'a outcome \<Rightarrow> 'a io" where
  "lift r s = (r, s)"

definition call_fault :: "env \<Rightarrow> call \<Rightarrow> unit io" where
  "call_fault env c s = (case fault env c of Some e \<Rightarrow> (Raises e, s) | None \<Rightarrow> (Returns (), s))"

definition emit :: "msg \<Rightarrow> unit io" where
  "emit m s = (Returns (), s\<lparr>console := console s @ [m]\<rparr>)"

text \<open>\<^verbatim>\<open>try: m  except Exception: h\<close>; a \<^verbatim>\<open>KeyboardInterrupt\<close> passes.\<close>

definition except_Exception :: "'a io \<Rightarrow> 'a io \<Rightarrow> 'a io" where
  "except_Exception m h s =
     (case m s of
        (Raises Exception, s') \<Rightarrow> h s'
      | r \<Rightarrow> r)"

text \<open>\<^verbatim>\<open>try: m  except: h\<close>; the bare clause catches every exception.\<close>

definition except_any :: "'a io \<Rightarrow> 'a io \<Rightarrow> 'a io" where
  "except_any m h s =
     (case m s of
        (Raises e, s') \<Rightarrow> h s'
      | r \<Rightarrow> r)"

text \<open>\<^verbatim>\<open>try: m  except KeyboardInterrupt: h1  except Exception: h2\<close>.\<close>

definition except_interrupt_or_Exception :: "'a io \<Rightarrow> 'a io \<Rightarrow> 'a io \<Rightarrow> 'a io" where
  "except_interrupt_or_Exception m h1 h2 s =
     (case m s of
        (Raises KeyboardInterrupt, s') \<Rightarrow> h1 s'
      | (Raises Exception, s') \<Rightarrow> h2 s'
      | r \<Rightarrow> r)"

text \<open>
  \<^verbatim>\<open>try: m  finally: c\<close>.  The \<^verbatim>\<open>finally\<close> suite runs whatever \<open>m\<close> did; what \<open>m\<close>
  returned or raised stands unless the suite itself raises.
\<close>

definition try_finally :: "'a io \<Rightarrow> unit io \<Rightarrow> 'a io" where
  "try_finally m c s =
     (case m s of
        (r, s') \<Rightarrow>
          (case c s' of
             (Returns _, s'') \<Rightarrow> (r, s'')
           | (Raises e, s'') \<Rightarrow> (Raises e, s'')))"

section \<open>The installer's steps\<close>

definition repo_owner :: string where
  "repo_owner = ''yourusername''"

definition repo_name :: string where
  "repo_name = ''alex-personal-hub''"

definition github_url :: string where
  "github_url = ''https://api.github.com/repos/'' @ repo_owner @ ''/'' @ repo_name"

text \<open>The manifest \<^verbatim>\<open>__init__\<close> sets: three file names, each with size 0 and an empty hash.\<close>

definition default_manifest :: json where
  "default_manifest =
     JObj [(''files'',
            JObj [(''main_app.py'', JObj [(''size'', JNum 0), (''hash'', JStr [])]),
                  (''requirements.txt'', JObj [(''size'', JNum 0), (''hash'', JStr [])]),
                  (''media_config.json'', JObj [(''size'', JNum 0), (''hash'', JStr [])])]),
           (''version'', JStr ''1.0.0''),
           (''total_size'', JNum 0)]"

text \<open>
  The installer as \<^verbatim>\<open>__init__\<close> leaves it, on a file system that has \<open>inst\<close> at the
  install target and \<open>tmp\<close> at the staging path.
\<close>

definition init :: "node option \<Rightarrow> node option \<Rightarrow> state" where
  "init inst tmp = \<lparr>install_dir = inst, temp_dir = tmp, manifest = default_manifest, console = []\<rparr>"

definition print_banner :: "unit io" where
  "print_banner = emit Banner"

text \<open>
  \<^verbatim>\<open>check_internet\<close>.  Inside the \<^verbatim>\<open>try\<close> the method returns \<open>True\<close> for status 200 and
  falls through otherwise (\<open>Some\<close> the value returned, \<open>None\<close> for falling through);
  the bare \<^verbatim>\<open>except: pass\<close> falls through as well.
\<close>

definition check_internet :: "env \<Rightarrow> bool io" where
  "check_internet env =
     bind (emit Step1_checking_internet) (\<lambda>_.
     bind (except_any
             (bind (lift (requests_get env ''https://api.github.com'')) (\<lambda>response.
                if status_code response = 200
                then bind (emit Internet_OK) (\<lambda>_. ret (Some True))
                else ret None))
             (ret None)) (\<lambda>returned.
     case returned of
       Some b \<Rightarrow> ret b
     | None \<Rightarrow>
         bind (emit No_internet) (\<lambda>_.
         bind (emit Please_connect) (\<lambda>_.
         ret False))))"

text \<open>
  \<^verbatim>\<open>Path.mkdir(exist_ok=True)\<close> on what stands at the path: an existing directory is
  left alone, a file there raises \<^verbatim>\<open>FileExistsError\<close>, and the directory is made
  when nothing is there.
\<close>

definition mkdir_exist_ok :: "env \<Rightarrow> call \<Rightarrow> node option \<Rightarrow> node option outcome" where
  "mkdir_exist_ok env c there =
     (case there of
        Some (Dir es) \<Rightarrow> Returns (Some (Dir es))
      | Some (File _ _) \<Rightarrow> Raises Exception
      | None \<Rightarrow> (case fault env c of Some e \<Rightarrow> Raises e | None \<Rightarrow> Returns (Some (Dir []))))"

definition mkdir_install_dir :: "env \<Rightarrow> unit io" where
  "mkdir_install_dir env s =
     (case mkdir_exist_ok env Mkdir_install (install_dir s) of
        Returns d \<Rightarrow> (Returns (), s\<lparr>install_dir := d\<rparr>)
      | Raises e \<Rightarrow> (Raises e, s))"

definition mkdir_temp_dir :: "env \<Rightarrow> unit io" where
  "mkdir_temp_dir env s =
     (case mkdir_exist_ok env Mkdir_temp (temp_dir s) of
        Returns d \<Rightarrow> (Returns (), s\<lparr>temp_dir := d\<rparr>)
      | Raises e \<Rightarrow> (Raises e, s))"

definition create_install_directory :: "env \<Rightarrow> bool io" where
  "create_install_directory env =
     bind (emit Step2_preparing) (\<lambda>_.
     except_Exception
       (bind (mkdir_install_dir env) (\<lambda>_.
        bind (mkdir_temp_dir env) (\<lambda>_.
        bind (emit Install_dir_ready) (\<lambda>_.
        ret True))))
       (bind (emit Mkdir_failed) (\<lambda>_.
        ret False)))"

text \<open>\<^verbatim>\<open>response.raise_for_status()\<close>: \<^verbatim>\<open>HTTPError\<close> for a status from 400 to 599.\<close>

definition raise_for_status :: "response \<Rightarrow> unit outcome" where
  "raise_for_status r =
     (if 400 \<le> status_code r \<and> status_code r < 600 then Raises Exception else Returns ())"

text \<open>\<^verbatim>\<open>int(response.headers.get('content-length', 0))\<close>.\<close>

definition total_size_of :: "response \<Rightarrow> int outcome" where
  "total_size_of r =
     (case content_length r of
        Missing \<Rightarrow> Returns 0
      | Numeric n \<Rightarrow> Returns n
      | Malformed \<Rightarrow> Raises Exception)"

text \<open>
  \<^verbatim>\<open>open(self.temp_dir / name, 'wb')\<close> and the writes that follow: the file is created
  or truncated and holds \<open>data\<close>.  Opening raises when the staging directory is not
  there or \<open>name\<close> is a directory in it.  Here and below a name is one path component,
  the entry of that name directly under the staging directory.
\<close>

definition write_temp_file :: "env \<Rightarrow> string \<Rightarrow> bytes \<Rightarrow> unit io" where
  "write_temp_file env name data s =
     (case temp_dir s of
        Some (Dir es) \<Rightarrow>
          (case map_of es name of
             Some (Dir _) \<Rightarrow> (Raises Exception, s)
           | _ \<Rightarrow>
               (case fault env (Open_wb name) of
                  Some e \<Rightarrow> (Raises e, s)
                | None \<Rightarrow>
                    (Returns (),
                     s\<lparr>temp_dir := Some (Dir (AList.update name (File data (new_meta env)) es))\<rparr>)))
      | _ \<Rightarrow> (Raises Exception, s))"

text \<open>
  \<^verbatim>\<open>download_file(url, self.temp_dir / destination, filename)\<close>, first its \<^verbatim>\<open>try\<close>
  suite and then the method with the handler.  The chunks the stream yields are
  written (an empty chunk is skipped); a stream that breaks raises after the chunks it
  delivered are in the file.
\<close>

definition download_file_try :: "env \<Rightarrow> string \<Rightarrow> string \<Rightarrow> bool io" where
  "download_file_try env url destination =
     bind (lift (requests_get env url)) (\<lambda>response.
     bind (lift (raise_for_status response)) (\<lambda>_.
     bind (lift (total_size_of response)) (\<lambda>total_size.
     bind (write_temp_file env destination
             (concat (filter (\<lambda>chunk. chunk \<noteq> []) (chunks response)))) (\<lambda>_.
     bind (lift (case stream_error response of Some e \<Rightarrow> Raises e | None \<Rightarrow> Returns ())) (\<lambda>_.
     ret True)))))"

definition download_file :: "env \<Rightarrow> string \<Rightarrow> string \<Rightarrow> string \<Rightarrow> bool io" where
  "download_file env url destination filename =
     except_Exception
       (download_file_try env url destination)
       (bind (emit (Download_failed filename)) (\<lambda>_.
        ret False))"

definition get_manifest :: "json io" where
  "get_manifest s = (Returns (manifest s), s)"

definition set_manifest :: "json \<Rightarrow> unit io" where
  "set_manifest j s = (Returns (), s\<lparr>manifest := j\<rparr>)"

text \<open>
  The block \<^verbatim>\<open>if "content" in self.manifest: ...\<close> of \<^verbatim>\<open>download_manifest\<close>, run after
  \<^verbatim>\<open>self.manifest = response.json()\<close>.  For a dict without the key nothing happens.  For
  a dict with the key, the value goes through
  \<^verbatim>\<open>json.loads(base64.b64decode(...).decode())\<close> (\<^verbatim>\<open>TypeError\<close> when it is not a
  string) and the result is stored.  A value that is no dict raises in every case
  before anything is stored or printed: \<^verbatim>\<open>in\<close> raises \<^verbatim>\<open>TypeError\<close> on \<^verbatim>\<open>None\<close>, a
  bool or a number; on a list or a string either the subscript \<^verbatim>\<open>["content"]\<close> raises
  \<^verbatim>\<open>TypeError\<close> or, the test being false, the \<^verbatim>\<open>.get\<close> of the next statement raises
  \<^verbatim>\<open>AttributeError\<close>.
\<close>

definition unwrap_content :: "env \<Rightarrow> unit io" where
  "unwrap_content env s =
     (case manifest s of
        JObj kvs \<Rightarrow>
          (case map_of kvs ''content'' of
             None \<Rightarrow> (Returns (), s)
           | Some (JStr c) \<Rightarrow>
               (case decode_content env c of
                  Returns j \<Rightarrow> (Returns (), s\<lparr>manifest := j\<rparr>)
                | Raises e \<Rightarrow> (Raises e, s))
           | Some _ \<Rightarrow> (Raises Exception, s))
      | _ \<Rightarrow> (Raises Exception, s))"

text \<open>
  \<^verbatim>\<open>download_manifest\<close>.  The method returns \<open>True\<close> inside the \<^verbatim>\<open>try\<close> and from the
  handler, and \<open>False\<close> after falling through on a status other than 200.
\<close>

definition download_manifest :: "env \<Rightarrow> bool io" where
  "download_manifest env =
     bind (emit Step3_fetching_list) (\<lambda>_.
     bind (except_Exception
             (bind (lift (requests_get env (github_url @ ''/contents/manifest.json''))) (\<lambda>response.
                if status_code response = 200 then
                  bind (lift (json_body response)) (\<lambda>j.
                  bind (set_manifest j) (\<lambda>_.
                  bind (unwrap_content env) (\<lambda>_.
                  bind get_manifest (\<lambda>m.
                  bind (lift (dict_get m ''files'' (JObj []))) (\<lambda>files.
                  bind (lift (py_len files)) (\<lambda>n.
                  bind (emit (Found_files n)) (\<lambda>_.
                  ret (Some True))))))))
                else ret None))
             (bind (emit Manifest_warning) (\<lambda>_.
              bind (emit Using_default_list) (\<lambda>_.
              ret (Some True))))) (\<lambda>returned.
     case returned of
       Some b \<Rightarrow> ret b
     | None \<Rightarrow> ret False))"

text \<open>\<^verbatim>\<open>os.path.getsize(self.temp_dir / name)\<close>.\<close>

definition getsize :: "env \<Rightarrow> string \<Rightarrow> nat io" where
  "getsize env name s =
     (case temp_dir s of
        Some (Dir es) \<Rightarrow>
          (case map_of es name of
             Some (File data _) \<Rightarrow> (Returns (length data), s)
           | Some (Dir _) \<Rightarrow> (Returns (dir_st_size env), s)
           | None \<Rightarrow> (Raises Exception, s))
      | _ \<Rightarrow> (Raises Exception, s))"

definition raw_url :: "string \<Rightarrow> string" where
  "raw_url filename =
     ''https://raw.githubusercontent.com/'' @ repo_owner @ ''/'' @ repo_name @ ''/main/'' @ filename"

text \<open>
  The \<^verbatim>\<open>for\<close> loop of \<^verbatim>\<open>download_app_files\<close> over the items of the manifest's file
  mapping, with the counter \<^verbatim>\<open>successful\<close>.
\<close>

fun download_each :: "env \<Rightarrow> (string \<times> json) list \<Rightarrow> nat \<Rightarrow> nat io" where
  "download_each env [] successful = ret successful"
| "download_each env ((filename, file_info) # rest) successful =
     bind (download_file env (raw_url filename) filename filename) (\<lambda>ok.
       if ok then
         bind (getsize env filename) (\<lambda>size.
         bind (lift (dict_get file_info ''size'' (JNum 0))) (\<lambda>declared.
           if py_eq_size size declared then download_each env rest (successful + 1)
           else
             bind (emit (Size_mismatch filename)) (\<lambda>_.
             download_each env rest successful)))
       else download_each env rest successful)"

definition download_app_files :: "env \<Rightarrow> bool io" where
  "download_app_files env =
     bind (emit Step4_downloading) (\<lambda>_.
     bind get_manifest (\<lambda>m.
     bind (lift (dict_get m ''files'' (JObj []))) (\<lambda>files.
     bind (lift (py_len files)) (\<lambda>total_files.
       if total_files = 0 then
         bind (emit No_files) (\<lambda>_.
         ret False)
       else
         bind (emit (Downloading_n total_files)) (\<lambda>_.
         bind get_manifest (\<lambda>m'.
         bind (lift (dict_get m' ''files'' (JObj []))) (\<lambda>files'.
         bind (lift (dict_items files')) (\<lambda>items.
         bind (download_each env items 0) (\<lambda>successful.
         bind (emit (Downloaded_count successful total_files)) (\<lambda>_.
         ret (0 < successful)))))))))))"

definition zip_url :: string where
  "zip_url = ''https://github.com/'' @ repo_owner @ ''/'' @ repo_name @ ''/archive/main.zip''"

definition member_path :: "member \<Rightarrow> string list" where
  "member_path mb = (case mb of Member_file path _ \<Rightarrow> path | Member_dir path \<Rightarrow> path)"

definition extract_member :: "env \<Rightarrow> member \<Rightarrow> entries \<Rightarrow> entries outcome" where
  "extract_member env mb es =
     (case mb of
        Member_file path data \<Rightarrow> extract_at path (Some (File data (new_meta env))) es
      | Member_dir path \<Rightarrow> extract_at path None es)"

text \<open>
  \<^verbatim>\<open>zip_ref.extractall(self.temp_dir)\<close>, member after member; the first member that
  raises ends the extraction and the members before it stay extracted.
\<close>

fun extract_members :: "env \<Rightarrow> member list \<Rightarrow> entries \<Rightarrow> exn option \<times> entries" where
  "extract_members env [] es = (None, es)"
| "extract_members env (mb # mbs) es =
     (case fault env (Extract (member_path mb)) of
        Some e \<Rightarrow> (Some e, es)
      | None \<Rightarrow>
          (case extract_member env mb es of
             Raises e \<Rightarrow> (Some e, es)
           | Returns es' \<Rightarrow> extract_members env mbs es'))"

text \<open>
  \<^verbatim>\<open>with zipfile.ZipFile(zip_path, 'r') as zip_ref: zip_ref.extractall(self.temp_dir)\<close>:
  the archive is read from \<^verbatim>\<open>app.zip\<close> in the staging directory.
\<close>

definition extractall :: "env \<Rightarrow> unit io" where
  "extractall env s =
     (case temp_dir s of
        Some (Dir es) \<Rightarrow>
          (case map_of es ''app.zip'' of
             Some (File data _) \<Rightarrow>
               (case zip_members env data of
                  Raises e \<Rightarrow> (Raises e, s)
                | Returns mbs \<Rightarrow>
                    (case extract_members env mbs es of
                       (Some e, es') \<Rightarrow> (Raises e, s\<lparr>temp_dir := Some (Dir es')\<rparr>)
                     | (None, es') \<Rightarrow> (Returns (), s\<lparr>temp_dir := Some (Dir es')\<rparr>)))
           | _ \<Rightarrow> (Raises Exception, s))
      | _ \<Rightarrow> (Raises Exception, s))"

definition extracted_name :: string where
  "extracted_name = repo_name @ ''-main''"

text \<open>
  The loop \<^verbatim>\<open>for item in extracted_dir.iterdir()\<close> of \<^verbatim>\<open>download_zip_alternative\<close>, over
  the names the listing gave; \<open>es\<close> lists the staging directory, which holds the
  extracted folder.  Each item is looked up when its turn comes, as \<^verbatim>\<open>is_file()\<close> and
  \<^verbatim>\<open>is_dir()\<close> do.  A file that bears the folder's own name would be copied onto itself
  (\<^verbatim>\<open>SameFileError\<close>).  The source of a copy is read before the copy writes; this is
  what \<^verbatim>\<open>shutil\<close> does unless a directory is copied into a directory that contains it.
\<close>

fun flatten_items :: "env \<Rightarrow> string list \<Rightarrow> entries \<Rightarrow> exn option \<times> entries" where
  "flatten_items env [] es = (None, es)"
| "flatten_items env (name # names) es =
     (case map_of es extracted_name of
        Some (Dir folder) \<Rightarrow>
          (case map_of folder name of
             Some (File data m) \<Rightarrow>
               (case fault env (Flatten_copy2 name) of
                  Some e \<Rightarrow> (Some e, es)
                | None \<Rightarrow>
                    (if name = extracted_name then (Some Exception, es)
                     else
                       (case copy2 name data m es of
                          Raises e \<Rightarrow> (Some e, es)
                        | Returns es' \<Rightarrow> flatten_items env names es')))
           | Some (Dir sub) \<Rightarrow>
               (case fault env (Flatten_copytree name) of
                  Some e \<Rightarrow> (Some e, es)
                | None \<Rightarrow>
                    (case copytree True name sub es of
                       (Some e, es') \<Rightarrow> (Some e, es')
                     | (None, es') \<Rightarrow> flatten_items env names es'))
           | None \<Rightarrow> flatten_items env names es)
      | _ \<Rightarrow> flatten_items env names es)"

text \<open>
  The block \<^verbatim>\<open>if extracted_dir.exists(): for item in extracted_dir.iterdir(): ...\<close>;
  \<^verbatim>\<open>iterdir\<close> raises \<^verbatim>\<open>NotADirectoryError\<close> when a file stands at the folder's path.
\<close>

definition flatten :: "env \<Rightarrow> unit io" where
  "flatten env s =
     (case temp_dir s of
        Some (Dir es) \<Rightarrow>
          (case map_of es extracted_name of
             None \<Rightarrow> (Returns (), s)
           | Some (File _ _) \<Rightarrow> (Raises Exception, s)
           | Some (Dir folder) \<Rightarrow>
               (case flatten_items env (map fst folder) es of
                  (Some e, es') \<Rightarrow> (Raises e, s\<lparr>temp_dir := Some (Dir es')\<rparr>)
                | (None, es') \<Rightarrow> (Returns (), s\<lparr>temp_dir := Some (Dir es')\<rparr>)))
      | _ \<Rightarrow> (Returns (), s))"

text \<open>The \<^verbatim>\<open>try\<close> suite of \<^verbatim>\<open>download_zip_alternative\<close>: extraction, then the flattening.\<close>

definition extract_try :: "env \<Rightarrow> bool io" where
  "extract_try env =
     bind (extractall env) (\<lambda>_.
     bind (flatten env) (\<lambda>_.
     bind (emit Files_extracted) (\<lambda>_.
     ret True)))"

definition download_zip_alternative :: "env \<Rightarrow> bool io" where
  "download_zip_alternative env =
     bind (emit Step4_downloading_zip) (\<lambda>_.
     bind (download_file env zip_url ''app.zip'' ''Application Package'') (\<lambda>ok.
       if \<not> ok then ret False
       else
         bind (emit Step5_extracting) (\<lambda>_.
         except_Exception
           (extract_try env)
           (bind (emit Extract_failed) (\<lambda>_.
            ret False)))))"

text \<open>\<^verbatim>\<open>requirements_file.exists()\<close> for \<^verbatim>\<open>requirements.txt\<close> in the staging directory.\<close>

definition requirements_exists :: "bool io" where
  "requirements_exists s =
     (Returns (case temp_dir s of
                 Some (Dir es) \<Rightarrow> map_of es ''requirements.txt'' \<noteq> None
               | _ \<Rightarrow> False), s)"

text \<open>
  \<^verbatim>\<open>install_dependencies\<close>; each \<^verbatim>\<open>subprocess.check_call\<close> returns or raises as the
  environment says.  The first branch has \<^verbatim>\<open>except Exception\<close>, the second a bare
  \<^verbatim>\<open>except:\<close>.
\<close>

definition install_dependencies :: "env \<Rightarrow> bool io" where
  "install_dependencies env =
     bind (emit Step6_dependencies) (\<lambda>_.
     bind requirements_exists (\<lambda>present.
       if present then
         except_Exception
           (bind (emit Installing_requirements) (\<lambda>_.
            bind (call_fault env Pip_upgrade) (\<lambda>_.
            bind (call_fault env Pip_install_requirements) (\<lambda>_.
            bind (emit Dependencies_installed) (\<lambda>_.
            ret True)))))
           (bind (emit Dependencies_warning) (\<lambda>_.
            bind (emit Install_manually) (\<lambda>_.
            ret False)))
       else
         except_any
           (bind (call_fault env Pip_install_PyQt6) (\<lambda>_.
            bind (emit PyQt6_installed) (\<lambda>_.
            ret True)))
           (bind (emit Skipping_dependencies) (\<lambda>_.
            ret False))))"

text \<open>
  The loop \<^verbatim>\<open>for item in self.temp_dir.iterdir()\<close> of \<^verbatim>\<open>copy_files_to_install_dir\<close>
  over the staging directory's entries; \<open>inst\<close> is what stands at the install target.
  A file goes through \<open>copy2\<close>.  A directory other than \<^verbatim>\<open>__pycache__\<close> has its
  destination removed with \<^verbatim>\<open>shutil.rmtree\<close> if that exists (which raises
  \<^verbatim>\<open>NotADirectoryError\<close> on a file) and is then copied with \<^verbatim>\<open>shutil.copytree\<close>, whose
  \<^verbatim>\<open>os.makedirs\<close> also makes a missing install directory.
\<close>

fun install_items :: "env \<Rightarrow> entries \<Rightarrow> node option \<Rightarrow> exn option \<times> node option" where
  "install_items env [] inst = (None, inst)"
| "install_items env ((name, File data m) # items) inst =
     (case fault env (Install_copy2 name) of
        Some e \<Rightarrow> (Some e, inst)
      | None \<Rightarrow>
          (case inst of
             Some (Dir es) \<Rightarrow>
               (case copy2 name data m es of
                  Raises e \<Rightarrow> (Some e, inst)
                | Returns es' \<Rightarrow> install_items env items (Some (Dir es')))
           | _ \<Rightarrow> (Some Exception, inst)))"
| "install_items env ((name, Dir sub) # items) inst =
     (if name = ''__pycache__'' then install_items env items inst
      else
        (case inst of
           Some (File _ _) \<Rightarrow> (Some Exception, inst)
         | None \<Rightarrow>
             (case fault env (Install_copytree name) of
                Some e \<Rightarrow> (Some e, inst)
              | None \<Rightarrow>
                  (case copytree False name sub [] of
                     (Some e, es') \<Rightarrow> (Some e, Some (Dir es'))
                   | (None, es') \<Rightarrow> install_items env items (Some (Dir es'))))
         | Some (Dir es) \<Rightarrow>
             (case map_of es name of
                Some (File _ _) \<Rightarrow> (Some Exception, inst)
              | Some (Dir _) \<Rightarrow>
                  (case fault env (Install_rmtree name) of
                     Some e \<Rightarrow> (Some e, inst)
                   | None \<Rightarrow>
                       (case fault env (Install_copytree name) of
                          Some e \<Rightarrow> (Some e, Some (Dir (AList.delete name es)))
                        | None \<Rightarrow>
                            (case copytree False name sub (AList.delete name es) of
                               (Some e, es') \<Rightarrow> (Some e, Some (Dir es'))
                             | (None, es') \<Rightarrow> install_items env items (Some (Dir es')))))
              | None \<Rightarrow>
                  (case fault env (Install_copytree name) of
                     Some e \<Rightarrow> (Some e, inst)
                   | None \<Rightarrow>
                       (case copytree False name sub es of
                          (Some e, es') \<Rightarrow> (Some e, Some (Dir es'))
                        | (None, es') \<Rightarrow> install_items env items (Some (Dir es')))))))"

text \<open>The loop on the state; \<^verbatim>\<open>iterdir\<close> raises when the staging directory is not there.\<close>

definition install_all :: "env \<Rightarrow> unit io" where
  "install_all env s =
     (case temp_dir s of
        Some (Dir items) \<Rightarrow>
          (case install_items env items (install_dir s) of
             (Some e, inst) \<Rightarrow> (Raises e, s\<lparr>install_dir := inst\<rparr>)
           | (None, inst) \<Rightarrow> (Returns (), s\<lparr>install_dir := inst\<rparr>))
      | _ \<Rightarrow> (Raises Exception, s))"

definition copy_files_to_install_dir :: "env \<Rightarrow> bool io" where
  "copy_files_to_install_dir env =
     bind (emit Step7_installing) (\<lambda>_.
     except_Exception
       (bind (install_all env) (\<lambda>_.
        bind (emit Files_installed) (\<lambda>_.
        ret True)))
       (bind (emit Copy_failed) (\<lambda>_.
        ret False)))"

text \<open>
  \<^verbatim>\<open>create_desktop_shortcut\<close>.  The three platform procedures write outside the staging
  directory (a shortcut, an application bundle, a desktop entry, and on Windows a
  launcher script beside the installed files); the model keeps whether the procedure
  raises and leaves what it writes out of the state.
\<close>

definition create_desktop_shortcut :: "env \<Rightarrow> unit io" where
  "create_desktop_shortcut env =
     bind (emit Step8_shortcuts) (\<lambda>_.
     except_Exception
       (bind (if platform_system env = ''Windows'' then call_fault env Platform_shortcut
              else if platform_system env = ''Darwin'' then call_fault env Platform_shortcut
              else if platform_system env = ''Linux'' then call_fault env Platform_shortcut
              else ret ()) (\<lambda>_.
        emit Shortcuts_created))
       (emit Shortcut_warning))"

text \<open>
  \<^verbatim>\<open>shutil.rmtree(self.temp_dir)\<close>: the staging directory is gone afterwards, unless
  the call raises; then the directory is still there, with what the call left of its
  entries.  The call raises \<^verbatim>\<open>NotADirectoryError\<close> when a file stands at the path.
\<close>

definition rmtree_temp_dir :: "env \<Rightarrow> unit io" where
  "rmtree_temp_dir env s =
     (case temp_dir s of
        Some (Dir es) \<Rightarrow>
          (case fault env Cleanup_rmtree of
             Some e \<Rightarrow> (Raises e, s\<lparr>temp_dir := Some (Dir (rmtree_remains env es))\<rparr>)
           | None \<Rightarrow> (Returns (), s\<lparr>temp_dir := None\<rparr>))
      | _ \<Rightarrow> (Raises Exception, s))"

definition temp_dir_exists :: "bool io" where
  "temp_dir_exists s = (Returns (temp_dir s \<noteq> None), s)"

definition cleanup :: "env \<Rightarrow> unit io" where
  "cleanup env =
     except_any
       (bind temp_dir_exists (\<lambda>present.
          if present then rmtree_temp_dir env else ret ()))
       (ret ())"

text \<open>\<^verbatim>\<open>input().strip().upper()\<close> on an ASCII line.\<close>

definition is_space :: "char \<Rightarrow> bool" where
  "is_space c = (of_char c \<in> {9, 10, 11, 12, 13, 28, 29, 30, 31, 32 :: nat})"

definition py_strip :: "string \<Rightarrow> string" where
  "py_strip s = rev (dropWhile is_space (rev (dropWhile is_space s)))"

definition py_upper :: "string \<Rightarrow> string" where
  "py_upper s =
     map (\<lambda>c. if 97 \<le> (of_char c :: nat) \<and> (of_char c :: nat) \<le> 122
               then char_of (of_char c - 32 :: nat) else c) s"

text \<open>
  The \<^verbatim>\<open>try\<close> suite of \<^verbatim>\<open>run\<close> from step 6 on: dependencies, the copy into the
  install target, the shortcut, the closing messages and the prompt.
\<close>

definition run_install :: "env \<Rightarrow> bool io" where
  "run_install env =
     bind (install_dependencies env) (\<lambda>_.
     bind (copy_files_to_install_dir env) (\<lambda>copied.
     if \<not> copied then ret False else
     bind (create_desktop_shortcut env) (\<lambda>_.
     bind (emit Rule_line) (\<lambda>_.
     bind (emit Installation_complete) (\<lambda>_.
     bind (emit Installed_to) (\<lambda>_.
     bind (emit Install_path) (\<lambda>_.
     bind (emit To_start) (\<lambda>_.
     bind (emit Look_for_shortcut) (\<lambda>_.
     bind (emit Or_run) (\<lambda>_.
     bind (emit Launch_prompt) (\<lambda>_.
     bind (lift (stdin_line env)) (\<lambda>line.
     bind (if py_upper (py_strip line) = ''Y'' then
             bind (emit Launching) (\<lambda>_.
             bind (call_fault env Chdir) (\<lambda>_.
             call_fault env Os_system))
           else ret ()) (\<lambda>_.
     ret True)))))))))))))"

text \<open>
  The \<^verbatim>\<open>try\<close> suite of \<^verbatim>\<open>run\<close>.  Every \<^verbatim>\<open>return False\<close> of the source ends the suite
  with \<open>False\<close>.  The fallback \<^verbatim>\<open>download_app_files\<close> is called inside
  \<^verbatim>\<open>if not self.download_zip_alternative():\<close>; \<open>acquired\<close> is false exactly when the
  inner \<^verbatim>\<open>return False\<close> is reached.
\<close>

definition run_try :: "env \<Rightarrow> bool io" where
  "run_try env =
     bind (check_internet env) (\<lambda>online.
     if \<not> online then ret False else
     bind (create_install_directory env) (\<lambda>prepared.
     if \<not> prepared then ret False else
     bind (download_manifest env) (\<lambda>_.
     bind (download_zip_alternative env) (\<lambda>zip_ok.
     bind (if \<not> zip_ok then
             bind (emit Trying_individual) (\<lambda>_.
             download_app_files env)
           else ret True) (\<lambda>acquired.
     if \<not> acquired then ret False else
     run_install env)))))"

text \<open>
  The \<^verbatim>\<open>try\<close> statement of \<^verbatim>\<open>run\<close> with its two handlers, before the \<^verbatim>\<open>finally\<close>
  clause.
\<close>

definition run_guarded :: "env \<Rightarrow> bool io" where
  "run_guarded env =
     except_interrupt_or_Exception
       (run_try env)
       (bind (emit Installation_cancelled) (\<lambda>_.
        ret False))
       (bind (emit Installation_failed) (\<lambda>_.
        bind (emit Traceback) (\<lambda>_.
        ret False)))"

text \<open>\<^verbatim>\<open>run\<close>: the banner, then the \<^verbatim>\<open>try\<close> statement with \<^verbatim>\<open>finally: self.cleanup()\<close>.\<close>

definition run :: "env \<Rightarrow> bool io" where
  "run env =
     bind print_banner (\<lambda>_.
     try_finally (run_guarded env) (cleanup env))"

section \<open>Notions the properties are stated with\<close>

text \<open>
  The environment raises no \<^verbatim>\<open>KeyboardInterrupt\<close>: nobody interrupts the run.
\<close>

definition no_interrupt :: "env \<Rightarrow> bool" where
  "no_interrupt env =
     ((\<forall>url. requests_get env url \<noteq> Raises KeyboardInterrupt) \<and>
      (\<forall>url r. requests_get env url = Returns r \<longrightarrow>
         stream_error r \<noteq> Some KeyboardInterrupt \<and> json_body r \<noteq> Raises KeyboardInterrupt) \<and>
      (\<forall>c. decode_content env c \<noteq> Raises KeyboardInterrupt) \<and>
      (\<forall>b. zip_members env b \<noteq> Raises KeyboardInterrupt) \<and>
      (\<forall>c. fault env c \<noteq> Some KeyboardInterrupt) \<and>
      stdin_line env \<noteq> Raises KeyboardInterrupt)"

text \<open>
  Two environments that differ at most in whether \<^verbatim>\<open>cleanup\<close>'s \<^verbatim>\<open>rmtree\<close> raises and
  in what it then leaves of the staging directory.
\<close>

definition same_but_cleanup :: "env \<Rightarrow> env \<Rightarrow> bool" where
  "same_but_cleanup e e' =
     (requests_get e' = requests_get e \<and> decode_content e' = decode_content e \<and>
      zip_members e' = zip_members e \<and> new_meta e' = new_meta e \<and>
      dir_st_size e' = dir_st_size e \<and> platform_system e' = platform_system e \<and>
      stdin_line e' = stdin_line e \<and>
      (\<forall>c. c \<noteq> Cleanup_rmtree \<longrightarrow> fault e' c = fault e c))"


text \<open>The entry of a name in the staging directory, and in what stands at the install target.\<close>

definition staged :: "state \<Rightarrow> string \<Rightarrow> node option" where
  "staged s name = (case temp_dir s of Some (Dir es) \<Rightarrow> map_of es name | _ \<Rightarrow> None)"

definition installed :: "node option \<Rightarrow> string \<Rightarrow> node option" where
  "installed inst name = (case inst of Some (Dir es) \<Rightarrow> map_of es name | _ \<Rightarrow> None)"




text \<open>
  What \<^verbatim>\<open>copy_files_to_install_dir\<close> is to do with one staging entry, between the
  install target \<open>before\<close> and \<open>after\<close>.  A file is at the target with its bytes and
  metadata (inside the directory of its name, if the target had one).  A directory
  other than \<^verbatim>\<open>__pycache__\<close> is at the target exactly as staged.  For \<^verbatim>\<open>__pycache__\<close>
  the target's entry is as it was.
\<close>

definition copied :: "node option \<Rightarrow> node option \<Rightarrow> string \<times> node \<Rightarrow> bool" where
  "copied before after item =
     (case snd item of
        File data m \<Rightarrow>
          (case installed before (fst item) of
             Some (Dir old) \<Rightarrow>
               installed after (fst item) = Some (Dir (AList.update (fst item) (File data m) old))
           | _ \<Rightarrow> installed after (fst item) = Some (File data m))
      | Dir sub \<Rightarrow>
          (if fst item = ''__pycache__'' then installed after (fst item) = installed before (fst item)
           else installed after (fst item) = Some (Dir sub)))"

text \<open>
  The state in which \<^verbatim>\<open>run\<close> calls \<^verbatim>\<open>download_zip_alternative\<close> (after the banner and
  steps 1 to 3), the state in which it calls \<^verbatim>\<open>download_app_files\<close> (after the primary
  path and the message that announces the fallback), and the condition that the run
  gets as far as step 4: steps 1 and 2 return \<open>True\<close> and step 3 returns.
\<close>

definition at_step2 :: "env \<Rightarrow> state \<Rightarrow> state" where
  "at_step2 env s = snd (check_internet env (snd (print_banner s)))"

definition at_step3 :: "env \<Rightarrow> state \<Rightarrow> state" where
  "at_step3 env s = snd (create_install_directory env (at_step2 env s))"

definition at_step4 :: "env \<Rightarrow> state \<Rightarrow> state" where
  "at_step4 env s = snd (download_manifest env (at_step3 env s))"

definition at_fallback :: "env \<Rightarrow> state \<Rightarrow> state" where
  "at_fallback env s = snd (emit Trying_individual (snd (download_zip_alternative env (at_step4 env s))))"

definition reaches_step4 :: "env \<Rightarrow> state \<Rightarrow> bool" where
  "reaches_step4 env s =
     (fst (check_internet env (snd (print_banner s))) = Returns True \<and>
      fst (create_install_directory env (at_step2 env s)) = Returns True \<and>
      (\<exists>b. fst (download_manifest env (at_step3 env s)) = Returns b))"

text \<open>
  Inside \<^verbatim>\<open>download_zip_alternative\<close>: the download of the archive, and the state in
  which the \<^verbatim>\<open>try\<close> suite with the extraction starts.
\<close>

definition zip_download :: "env \<Rightarrow> bool io" where
  "zip_download env s =
     download_file env zip_url ''app.zip'' ''Application Package'' (snd (emit Step4_downloading_zip s))"

definition at_extraction :: "env \<Rightarrow> state \<Rightarrow> state" where
  "at_extraction env s = snd (emit Step5_extracting (snd (zip_download env s)))"

text \<open>A method prints only messages of the set \<open>M\<close>, after what the console holds.\<close>

definition emits :: "msg set \<Rightarrow> 'a io \<Rightarrow> bool" where
  "emits M m = (\<forall>s. \<exists>msgs. console (snd (m s)) = console s @ msgs \<and> set msgs \<subseteq> M)"

subsection \<open>The effect of one download on the entry it writes\<close>







section \<open>Example environments\<close>

text \<open>A response with a status code and a body, no \<^verbatim>\<open>content-length\<close>, and no JSON in it.\<close>

definition plain_response :: "nat \<Rightarrow> bytes list \<Rightarrow> response" where
  "plain_response code body =
     \<lparr>status_code = code, content_length = Missing, chunks = body, stream_error = None,
      json_body = Raises Exception\<rparr>"

definition json_response :: "json \<Rightarrow> response" where
  "json_response j =
     \<lparr>status_code = 200, content_length = Missing, chunks = [], stream_error = None,
      json_body = Returns j\<rparr>"

text \<open>No network: every request raises a connection error.  Nothing else fails.\<close>

definition offline_env :: env where
  "offline_env =
     \<lparr>requests_get = (\<lambda>_. Raises Exception), decode_content = (\<lambda>_. Raises Exception),
      zip_members = (\<lambda>_. Raises Exception), fault = (\<lambda>_. None), new_meta = 0,
      dir_st_size = 4096, rmtree_remains = (\<lambda>es. es), platform_system = ''Linux'',
      stdin_line = Returns ''n''\<rparr>"

text \<open>The probe answers 200 and every other URL answers 404.\<close>

definition bare_env :: env where
  "bare_env =
     offline_env\<lparr>requests_get :=
       (\<lambda>url. if url = ''https://api.github.com'' then Returns (plain_response 200 [])
              else Returns (plain_response 404 []))\<rparr>"


text \<open>Like \<open>bare_env\<close>, and the staging directory cannot be removed.\<close>

definition locked_env :: env where
  "locked_env = bare_env\<lparr>fault := (\<lambda>c. if c = Cleanup_rmtree then Some Exception else None)\<rparr>"



text \<open>
  The archive downloads and holds the project folder with one file, \<^verbatim>\<open>main_app.py\<close>.
\<close>

definition archive_env :: env where
  "archive_env =
     bare_env\<lparr>requests_get :=
       (\<lambda>url. if url = zip_url then Returns (plain_response 200 [[0x50, 0x4B, 3, 4]])
              else requests_get bare_env url),
      zip_members :=
       (\<lambda>_. Returns [Member_dir [extracted_name],
                      Member_file [extracted_name, ''main_app.py''] [1, 2, 3]])\<rparr>"

text \<open>
  The manifest endpoint answers 200 with the envelope of the contents API, whose
  \<^verbatim>\<open>content\<close> does not decode to JSON (the base64 text of a manifest cut short).
\<close>

definition envelope :: json where
  "envelope =
     JObj [(''name'', JStr ''manifest.json''), (''encoding'', JStr ''base64''),
           (''content'', JStr ''eyJmaWxlcyI6'')]"

definition broken_manifest_env :: env where
  "broken_manifest_env =
     bare_env\<lparr>requests_get :=
       (\<lambda>url. if url = github_url @ ''/contents/manifest.json'' then Returns (json_response envelope)
              else requests_get bare_env url)\<rparr>"

text \<open>
  A manifest of two files, \<^verbatim>\<open>b.py\<close> declared with 9 bytes and \<^verbatim>\<open>a.py\<close> with 3, and
  an environment where the probe answers 200, the manifest endpoint delivers this
  manifest, the archive is missing (404) and the raw files download: \<^verbatim>\<open>a.py\<close> with
  3 bytes, \<^verbatim>\<open>b.py\<close> with 2.
\<close>

definition two_files :: "(string \<times> json) list" where
  "two_files = [(''b.py'', JObj [(''size'', JNum 9)]), (''a.py'', JObj [(''size'', JNum 3)])]"

definition two_files_manifest :: json where
  "two_files_manifest = JObj [(''files'', JObj two_files), (''version'', JStr ''1.0.0'')]"

definition raw_files_env :: env where
  "raw_files_env =
     offline_env\<lparr>requests_get :=
       (\<lambda>url. if url = ''https://api.github.com'' then Returns (plain_response 200 [])
              else if url = github_url @ ''/contents/manifest.json''
                then Returns (json_response two_files_manifest)
              else if url = raw_url ''a.py'' then Returns (plain_response 200 [[1, 2], [3]])
              else if url = raw_url ''b.py'' then Returns (plain_response 200 [[4, 5]])
              else Returns (plain_response 404 []))\<rparr>"


text \<open>
  A staging directory with a file, a directory and a \<^verbatim>\<open>__pycache__\<close>, and an install
  target that holds an older \<^verbatim>\<open>assets\<close> directory with a stale file and a
  \<^verbatim>\<open>__pycache__\<close> of its own.
\<close>

definition staging_example :: entries where
  "staging_example =
     [(''main_app.py'', File [1, 2, 3] 7),
      (''assets'', Dir [(''logo.png'', File [9] 5)]),
      (''__pycache__'', Dir [(''main_app.pyc'', File [0] 1)])]"



section \<open>Auxiliary facts\<close>

lemmas io_defs = ret_def bind_def lift_def emit_def call_fault_def except_Exception_def
  except_any_def except_interrupt_or_Exception_def try_finally_def get_manifest_def set_manifest_def

lemma sbc_fields:
  assumes "same_but_cleanup e e'"
  shows "requests_get e' = requests_get e" "decode_content e' = decode_content e"
    "zip_members e' = zip_members e" "new_meta e' = new_meta e"
    "dir_st_size e' = dir_st_size e" "platform_system e' = platform_system e"
    "stdin_line e' = stdin_line e"
    "c \<noteq> Cleanup_rmtree \<Longrightarrow> fault e' c = fault e c"
  using assms by (simp_all add: same_but_cleanup_def)

lemmas branch_cong = if_cong option.case_cong node.case_cong outcome.case_cong prod.case_cong
  json.case_cong member.case_cong exn.case_cong

lemma sbc_call_fault: "same_but_cleanup e e' \<Longrightarrow> c \<noteq> Cleanup_rmtree \<Longrightarrow> call_fault e' c = call_fault e c"
  by (rule ext) (simp add: call_fault_def sbc_fields cong: branch_cong)

lemma sbc_mkdir_install: "same_but_cleanup e e' \<Longrightarrow> mkdir_install_dir e' = mkdir_install_dir e"
  by (rule ext) (simp add: mkdir_install_dir_def mkdir_exist_ok_def sbc_fields cong: branch_cong)

lemma sbc_mkdir_temp: "same_but_cleanup e e' \<Longrightarrow> mkdir_temp_dir e' = mkdir_temp_dir e"
  by (rule ext) (simp add: mkdir_temp_dir_def mkdir_exist_ok_def sbc_fields cong: branch_cong)

lemma sbc_write: "same_but_cleanup e e' \<Longrightarrow> write_temp_file e' = write_temp_file e"
  by (intro ext) (simp add: write_temp_file_def sbc_fields cong: branch_cong)

lemma sbc_unwrap: "same_but_cleanup e e' \<Longrightarrow> unwrap_content e' = unwrap_content e"
  by (rule ext) (simp add: unwrap_content_def sbc_fields cong: branch_cong)

lemma sbc_getsize: "same_but_cleanup e e' \<Longrightarrow> getsize e' = getsize e"
  by (intro ext) (simp add: getsize_def sbc_fields cong: branch_cong)

lemma sbc_check_internet: "same_but_cleanup e e' \<Longrightarrow> check_internet e' = check_internet e"
  by (simp add: check_internet_def sbc_fields cong: branch_cong)

lemma sbc_create: "same_but_cleanup e e' \<Longrightarrow> create_install_directory e' = create_install_directory e"
  by (simp add: create_install_directory_def sbc_mkdir_install sbc_mkdir_temp cong: branch_cong)

lemma sbc_download_file: "same_but_cleanup e e' \<Longrightarrow> download_file e' = download_file e"
  by (intro ext) (simp add: download_file_def download_file_try_def sbc_write sbc_fields cong: branch_cong)

lemma sbc_manifest: "same_but_cleanup e e' \<Longrightarrow> download_manifest e' = download_manifest e"
  by (simp add: download_manifest_def sbc_unwrap sbc_fields cong: branch_cong)

lemma sbc_download_each:
  "same_but_cleanup e e' \<Longrightarrow> download_each e' items n = download_each e items n"
proof (induction items arbitrary: n)
  case Nil
  show ?case by simp
next
  case (Cons item items)
  obtain filename file_info where "item = (filename, file_info)" by (cases item)
  with Cons show ?case
    by (simp add: sbc_download_file sbc_getsize cong: branch_cong)
qed

lemma sbc_app_files: "same_but_cleanup e e' \<Longrightarrow> download_app_files e' = download_app_files e"
  by (simp add: download_app_files_def sbc_download_each cong: branch_cong)

lemma sbc_extract_members:
  "same_but_cleanup e e' \<Longrightarrow> extract_members e' mbs es = extract_members e mbs es"
  by (induction mbs arbitrary: es) (simp_all add: extract_member_def sbc_fields cong: branch_cong)

lemma sbc_extractall: "same_but_cleanup e e' \<Longrightarrow> extractall e' = extractall e"
  by (rule ext) (simp add: extractall_def sbc_extract_members sbc_fields cong: branch_cong)

lemma sbc_flatten_items:
  "same_but_cleanup e e' \<Longrightarrow> flatten_items e' names es = flatten_items e names es"
  by (induction names arbitrary: es) (simp_all add: sbc_fields cong: branch_cong)

lemma sbc_flatten: "same_but_cleanup e e' \<Longrightarrow> flatten e' = flatten e"
  by (rule ext) (simp add: flatten_def sbc_flatten_items cong: branch_cong)

lemma sbc_zip: "same_but_cleanup e e' \<Longrightarrow> download_zip_alternative e' = download_zip_alternative e"
  by (simp add: download_zip_alternative_def extract_try_def sbc_extractall sbc_flatten
      sbc_download_file cong: branch_cong)

lemma sbc_deps: "same_but_cleanup e e' \<Longrightarrow> install_dependencies e' = install_dependencies e"
  by (simp add: install_dependencies_def sbc_call_fault cong: branch_cong)

lemma sbc_install_items:
  "same_but_cleanup e e' \<Longrightarrow> install_items e' items inst = install_items e items inst"
  by (induction e items inst rule: install_items.induct) (simp_all add: sbc_fields cong: branch_cong)

lemma sbc_install_all: "same_but_cleanup e e' \<Longrightarrow> install_all e' = install_all e"
  by (rule ext) (simp add: install_all_def sbc_install_items cong: branch_cong)

lemma sbc_copy: "same_but_cleanup e e' \<Longrightarrow> copy_files_to_install_dir e' = copy_files_to_install_dir e"
  by (simp add: copy_files_to_install_dir_def sbc_install_all cong: branch_cong)

lemma sbc_shortcut: "same_but_cleanup e e' \<Longrightarrow> create_desktop_shortcut e' = create_desktop_shortcut e"
  by (simp add: create_desktop_shortcut_def sbc_call_fault sbc_fields cong: branch_cong)

lemma sbc_run_install: "same_but_cleanup e e' \<Longrightarrow> run_install e' = run_install e"
  by (simp add: run_install_def sbc_deps sbc_copy sbc_shortcut sbc_call_fault sbc_fields
      cong: branch_cong)

lemma sbc_run_try: "same_but_cleanup e e' \<Longrightarrow> run_try e' = run_try e"
  by (simp add: run_try_def sbc_check_internet sbc_create sbc_manifest sbc_zip sbc_app_files
      sbc_run_install cong: branch_cong)

lemma sbc_run_guarded: "same_but_cleanup e e' \<Longrightarrow> run_guarded e' = run_guarded e"
  by (simp add: run_guarded_def sbc_run_try cong: branch_cong)

lemma cleanup_returns: "fst (cleanup env s) = Returns ()"
  by (simp add: cleanup_def temp_dir_exists_def rmtree_temp_dir_def io_defs
      split: outcome.splits option.splits node.splits prod.splits)

lemma cleanup_state:
  "snd (cleanup env s) =
     (case temp_dir s of
        Some (Dir es) \<Rightarrow>
          (case fault env Cleanup_rmtree of
             Some e \<Rightarrow> s\<lparr>temp_dir := Some (Dir (rmtree_remains env es))\<rparr>
           | None \<Rightarrow> s\<lparr>temp_dir := None\<rparr>)
      | _ \<Rightarrow> s)"
  by (simp add: cleanup_def temp_dir_exists_def rmtree_temp_dir_def io_defs
      split: outcome.splits option.splits node.splits prod.splits)

lemma try_finally_cleanup:
  "try_finally m (cleanup env) s = (fst (m s), snd (cleanup env (snd (m s))))"
proof -
  obtain r s' where m: "m s = (r, s')" by (cases "m s")
  obtain u s'' where c: "cleanup env s' = (u, s'')" by (cases "cleanup env s'")
  from cleanup_returns [of env s'] c have "u = Returns ()" by simp
  with m c show ?thesis by (simp add: try_finally_def)
qed

lemma run_unfold:
  "run env s =
     (fst (run_guarded env (snd (print_banner s))),
      snd (cleanup env (snd (run_guarded env (snd (print_banner s))))))"
  by (simp add: run_def print_banner_def bind_def emit_def try_finally_cleanup)

lemma run_guarded_returns: "\<exists>b. fst (run_guarded env s) = Returns b"
  by (auto simp: run_guarded_def except_interrupt_or_Exception_def bind_def emit_def ret_def
      split: prod.splits outcome.splits exn.splits)

lemma same_but_cleanup_upd:
  "same_but_cleanup env (env\<lparr>fault := (fault env)(Cleanup_rmtree := x), rmtree_remains := r\<rparr>)"
  by (simp add: same_but_cleanup_def)

lemma bind_lift: "bind (lift r) f s = (case r of Returns x \<Rightarrow> f x s | Raises e \<Rightarrow> (Raises e, s))"
  by (simp add: bind_def lift_def split: outcome.splits)


























subsection \<open>What each method prints\<close>

named_theorems emits_intro

lemma emits_silent: "(\<And>s. console (snd (m s)) = console s) \<Longrightarrow> emits M m"
  by (simp add: emits_def)

lemma emits_mono: "emits M m \<Longrightarrow> M \<subseteq> N \<Longrightarrow> emits N m"
  unfolding emits_def by (meson subset_trans)

lemma emits_ret [emits_intro]: "emits M (ret x)"
  by (simp add: emits_def ret_def)

lemma emits_lift [emits_intro]: "emits M (lift r)"
  by (simp add: emits_def lift_def)

lemma emits_emit [emits_intro]: "x \<in> M \<Longrightarrow> emits M (emit x)"
  by (simp add: emits_def emit_def)

lemma emits_bind [emits_intro]:
  assumes "emits M m" and "\<And>x. emits M (f x)"
  shows "emits M (bind m f)"
  unfolding emits_def
proof
  fix s
  obtain r s' where m: "m s = (r, s')" by (cases "m s")
  from assms(1) m obtain m1 where 1: "console s' = console s @ m1" "set m1 \<subseteq> M"
    unfolding emits_def by (metis snd_conv)
  show "\<exists>msgs. console (snd (bind m f s)) = console s @ msgs \<and> set msgs \<subseteq> M"
  proof (cases r)
    case (Returns x)
    from assms(2) [of x] obtain m2 where 2: "console (snd (f x s')) = console s' @ m2" "set m2 \<subseteq> M"
      unfolding emits_def by blast
    with 1 m Returns show ?thesis
      by (intro exI [of _ "m1 @ m2"]) (simp add: bind_def)
  next
    case (Raises e)
    with 1 m show ?thesis by (intro exI [of _ m1]) (simp add: bind_def)
  qed
qed

lemma emits_handler:
  assumes "emits M m" and "emits M h"
  shows "emits M (\<lambda>s. case m s of (r, s') \<Rightarrow> if P r then h s' else (r, s'))"
  unfolding emits_def
proof
  fix s
  obtain r s' where m: "m s = (r, s')" by (cases "m s")
  from assms(1) m obtain m1 where 1: "console s' = console s @ m1" "set m1 \<subseteq> M"
    unfolding emits_def by (metis snd_conv)
  from assms(2) obtain m2 where 2: "console (snd (h s')) = console s' @ m2" "set m2 \<subseteq> M"
    unfolding emits_def by blast
  show "\<exists>msgs. console (snd (case m s of (r, s') \<Rightarrow> if P r then h s' else (r, s'))) = console s @ msgs \<and> set msgs \<subseteq> M"
  proof (cases "P r")
    case True
    with 1 2 m show ?thesis by (intro exI [of _ "m1 @ m2"]) simp
  next
    case False
    with 1 m show ?thesis by (intro exI [of _ m1]) simp
  qed
qed

lemma except_Exception_alt:
  "except_Exception m h = (\<lambda>s. case m s of (r, s') \<Rightarrow> if r = Raises Exception then h s' else (r, s'))"
  by (rule ext) (simp add: except_Exception_def split: prod.splits outcome.splits exn.splits)

lemma except_any_alt:
  "except_any m h = (\<lambda>s. case m s of (r, s') \<Rightarrow> if (\<exists>e. r = Raises e) then h s' else (r, s'))"
  by (rule ext) (simp add: except_any_def split: prod.splits outcome.splits exn.splits)

lemma emits_except_Exception [emits_intro]:
  "emits M m \<Longrightarrow> emits M h \<Longrightarrow> emits M (except_Exception m h)"
  unfolding except_Exception_alt by (rule emits_handler)

lemma emits_except_any [emits_intro]:
  "emits M m \<Longrightarrow> emits M h \<Longrightarrow> emits M (except_any m h)"
  unfolding except_any_alt by (rule emits_handler)

lemma emits_if [emits_intro]: "emits M a \<Longrightarrow> emits M b \<Longrightarrow> emits M (if c then a else b)"
  by simp

lemma emits_case_option [emits_intro]:
  "emits M a \<Longrightarrow> (\<And>x. emits M (f x)) \<Longrightarrow> emits M (case v of None \<Rightarrow> a | Some x \<Rightarrow> f x)"
  by (cases v) simp_all

lemma emits_call_fault [emits_intro]: "emits M (call_fault env c)"
  by (rule emits_silent) (simp add: call_fault_def split: option.splits)

lemma emits_get_manifest [emits_intro]: "emits M get_manifest"
  by (rule emits_silent) (simp add: get_manifest_def)

lemma emits_set_manifest [emits_intro]: "emits M (set_manifest j)"
  by (rule emits_silent) (simp add: set_manifest_def)

lemma emits_mkdir_install [emits_intro]: "emits M (mkdir_install_dir env)"
  by (rule emits_silent) (simp add: mkdir_install_dir_def split: outcome.splits)

lemma emits_mkdir_temp [emits_intro]: "emits M (mkdir_temp_dir env)"
  by (rule emits_silent) (simp add: mkdir_temp_dir_def split: outcome.splits)

lemma emits_write [emits_intro]: "emits M (write_temp_file env n d)"
  by (rule emits_silent) (simp add: write_temp_file_def split: option.splits node.splits)

lemma emits_unwrap [emits_intro]: "emits M (unwrap_content env)"
  by (rule emits_silent) (simp add: unwrap_content_def split: option.splits json.splits outcome.splits)

lemma emits_getsize [emits_intro]: "emits M (getsize env n)"
  by (rule emits_silent) (simp add: getsize_def split: option.splits node.splits)

lemma emits_extractall [emits_intro]: "emits M (extractall env)"
  by (rule emits_silent)
     (simp add: extractall_def split: option.splits node.splits outcome.splits prod.splits)

lemma emits_flatten [emits_intro]: "emits M (flatten env)"
  by (rule emits_silent) (simp add: flatten_def split: option.splits node.splits prod.splits)

lemma emits_install_all [emits_intro]: "emits M (install_all env)"
  by (rule emits_silent) (simp add: install_all_def split: option.splits node.splits prod.splits)

lemma emits_requirements [emits_intro]: "emits M requirements_exists"
  by (rule emits_silent) (simp add: requirements_exists_def)

lemma emits_check_internet:
  "emits {Step1_checking_internet, Internet_OK, No_internet, Please_connect} (check_internet env)"
  unfolding check_internet_def by (intro emits_intro) simp_all

lemma emits_create:
  "emits {Step2_preparing, Install_dir_ready, Mkdir_failed} (create_install_directory env)"
  unfolding create_install_directory_def by (intro emits_intro) simp_all

lemma emits_download_file: "emits {Download_failed fn} (download_file env url dst fn)"
  unfolding download_file_def download_file_try_def by (intro emits_intro) simp_all

lemma emits_manifest:
  "emits ({Step3_fetching_list, Manifest_warning, Using_default_list} \<union> range Found_files)
     (download_manifest env)"
  unfolding download_manifest_def by (intro emits_intro) simp_all

lemma emits_download_each:
  "emits (range Download_failed \<union> range Size_mismatch) (download_each env items k)"
proof (induction items arbitrary: k)
  case Nil
  show ?case by (simp add: emits_ret)
next
  case (Cons item items)
  obtain n info where "item = (n, info)" by (cases item)
  then show ?case
    using Cons emits_mono [OF emits_download_file [of n env "raw_url n" n], of "range Download_failed \<union> range Size_mismatch"]
    by (auto intro!: emits_intro)
qed

lemma emits_app_files_tail:
  "emits (- {Step4_downloading_zip, Step6_dependencies}) (download_app_files env)"
  unfolding download_app_files_def
  by (intro emits_intro emits_mono [OF emits_download_each]) auto

lemma emits_zip:
  "emits (- {Step4_downloading, Step6_dependencies}) (download_zip_alternative env)"
  unfolding download_zip_alternative_def extract_try_def
  by (intro emits_intro emits_mono [OF emits_download_file]) auto

lemma emits_deps:
  "emits (- {Step4_downloading, Step4_downloading_zip}) (install_dependencies env)"
  unfolding install_dependencies_def by (intro emits_intro) auto

lemma emits_copy:
  "emits {Step7_installing, Files_installed, Copy_failed} (copy_files_to_install_dir env)"
  unfolding copy_files_to_install_dir_def by (intro emits_intro) auto

lemma emits_shortcut:
  "emits {Step8_shortcuts, Shortcuts_created, Shortcut_warning} (create_desktop_shortcut env)"
  unfolding create_desktop_shortcut_def by (intro emits_intro) auto

lemma emits_run_install:
  "emits (- {Step4_downloading, Step4_downloading_zip}) (run_install env)"
  unfolding run_install_def
  by (intro emits_intro emits_deps emits_mono [OF emits_copy] emits_mono [OF emits_shortcut]) auto

subsection \<open>Which exceptions leave the primary path\<close>

lemma except_Exception_never:
  assumes "\<And>s. fst (h s) \<noteq> Raises Exception"
  shows "fst (except_Exception m h s) \<noteq> Raises Exception"
  using assms by (simp add: except_Exception_def split: prod.splits outcome.splits exn.splits)

lemma download_file_never_Exception: "fst (download_file env url dst fn s) \<noteq> Raises Exception"
  unfolding download_file_def
  by (rule except_Exception_never) (simp add: bind_def emit_def ret_def)


lemma dza_unfold:
  "download_zip_alternative env s =
     (case zip_download env s of
        (Raises e, s1) \<Rightarrow> (Raises e, s1)
      | (Returns ok, s1) \<Rightarrow>
          if \<not> ok then (Returns False, s1)
          else except_Exception (extract_try env) (bind (emit Extract_failed) (\<lambda>_. ret False))
                 (at_extraction env s))"
  by (simp add: download_zip_alternative_def zip_download_def at_extraction_def bind_def emit_def
      ret_def split: prod.splits outcome.splits)

lemma dza_never_Exception: "fst (download_zip_alternative env s) \<noteq> Raises Exception"
proof -
  have h: "fst (except_Exception (extract_try env) (bind (emit Extract_failed) (\<lambda>_. ret False)) t)
             \<noteq> Raises Exception" for t
    by (rule except_Exception_never) (simp add: bind_def emit_def ret_def)
  have d: "fst (zip_download env s) \<noteq> Raises Exception"
    by (simp add: zip_download_def download_file_never_Exception)
  show ?thesis
    using h d by (auto simp: dza_unfold split: prod.splits outcome.splits)
qed

subsection \<open>Without an interrupt the primary path returns\<close>

lemma extract_at_Exception: "extract_at path f es = Raises e \<Longrightarrow> e = Exception"
  by (induction path f es arbitrary: e rule: extract_at.induct)
     (auto split: option.splits node.splits outcome.splits)

lemma extract_members_no_interrupt:
  "no_interrupt env \<Longrightarrow> fst (extract_members env mbs es) \<noteq> Some KeyboardInterrupt"
proof (induction mbs arbitrary: es)
  case Nil
  show ?case by simp
next
  case (Cons mb mbs)
  have f: "fault env c \<noteq> Some KeyboardInterrupt" for c
    using Cons.prems by (simp add: no_interrupt_def)
  show ?case
    using Cons f [of "Extract (member_path mb)"]
    by (auto simp: extract_member_def split: option.splits outcome.splits member.splits
        dest: extract_at_Exception)
qed

lemma copy2_Exception: "copy2 name d m es = Raises e \<Longrightarrow> e = Exception"
  by (auto simp: copy2_def split: option.splits node.splits)

lemma copytree_Exception: "copytree dok name sub es = (Some e, es') \<Longrightarrow> e = Exception"
  by (auto simp: copytree_def split: option.splits node.splits prod.splits if_splits)

lemma flatten_items_no_interrupt:
  "no_interrupt env \<Longrightarrow> fst (flatten_items env names es) \<noteq> Some KeyboardInterrupt"
proof (induction names arbitrary: es)
  case Nil
  show ?case by simp
next
  case (Cons name names)
  have f: "fault env c \<noteq> Some KeyboardInterrupt" for c
    using Cons.prems by (simp add: no_interrupt_def)
  show ?case
    using Cons f [of "Flatten_copy2 name"] f [of "Flatten_copytree name"]
    by (auto split: option.splits outcome.splits node.splits prod.splits
        dest: copy2_Exception copytree_Exception)
qed

lemma write_temp_file_no_interrupt:
  assumes "no_interrupt env"
  shows "fst (write_temp_file env dst d s) \<noteq> Raises KeyboardInterrupt"
proof -
  have f: "fault env (Open_wb dst) \<noteq> Some KeyboardInterrupt"
    using assms by (simp add: no_interrupt_def)
  then show ?thesis
    by (auto simp: write_temp_file_def split: option.splits node.splits)
qed

lemma bind_no_interrupt:
  assumes "fst (m s) \<noteq> Raises KeyboardInterrupt"
    and "\<And>x s'. fst (f x s') \<noteq> Raises KeyboardInterrupt"
  shows "fst (bind m f s) \<noteq> Raises KeyboardInterrupt"
  using assms by (cases "m s") (auto simp: bind_def split: outcome.splits)

lemma download_file_try_no_interrupt:
  assumes "no_interrupt env"
  shows "fst (download_file_try env url dst s) \<noteq> Raises KeyboardInterrupt"
proof (cases "requests_get env url")
  case (Raises e)
  with assms have "e = Exception" by (cases e) (auto simp: no_interrupt_def)
  with Raises show ?thesis by (simp add: download_file_try_def bind_lift)
next
  case (Returns r)
  have se: "stream_error r \<noteq> Some KeyboardInterrupt"
    using assms Returns by (auto simp: no_interrupt_def)
  have tail: "fst (bind (write_temp_file env dst d)
                 (\<lambda>_. bind (lift (case stream_error r of Some e \<Rightarrow> Raises e | None \<Rightarrow> Returns ()))
                         (\<lambda>_. ret True)) t) \<noteq> Raises KeyboardInterrupt" for d t
    using se
    by (intro bind_no_interrupt write_temp_file_no_interrupt [OF assms])
       (auto simp: lift_def ret_def split: option.splits)
  show ?thesis
    using tail Returns
    by (simp add: download_file_try_def bind_lift raise_for_status_def total_size_of_def
        split: header.splits)
qed

lemma except_Exception_no_interrupt:
  assumes "fst (m s) \<noteq> Raises KeyboardInterrupt"
    and "\<And>s'. fst (h s') \<noteq> Raises KeyboardInterrupt"
  shows "fst (except_Exception m h s) \<noteq> Raises KeyboardInterrupt"
  using assms by (cases "m s") (auto simp: except_Exception_def split: outcome.splits exn.splits)

lemma download_file_no_interrupt:
  assumes "no_interrupt env"
  shows "fst (download_file env url dst fn s) \<noteq> Raises KeyboardInterrupt"
  unfolding download_file_def
  by (intro except_Exception_no_interrupt download_file_try_no_interrupt [OF assms])
     (simp add: bind_def emit_def ret_def)

lemma extractall_no_interrupt:
  assumes "no_interrupt env"
  shows "fst (extractall env s) \<noteq> Raises KeyboardInterrupt"
proof -
  have z: "zip_members env b \<noteq> Raises KeyboardInterrupt" for b
    using assms by (simp add: no_interrupt_def)
  have m: "extract_members env mbs es \<noteq> (Some KeyboardInterrupt, es')" for mbs es es'
    using extract_members_no_interrupt [OF assms, of mbs es] by auto
  show ?thesis
    using z m
    by (auto simp: extractall_def split: option.splits node.splits outcome.splits prod.splits)
qed

lemma flatten_no_interrupt:
  assumes "no_interrupt env"
  shows "fst (flatten env s) \<noteq> Raises KeyboardInterrupt"
proof -
  have m: "flatten_items env names es \<noteq> (Some KeyboardInterrupt, es')" for names es es'
    using flatten_items_no_interrupt [OF assms, of names es] by auto
  show ?thesis
    using m
    by (auto simp: flatten_def split: option.splits node.splits outcome.splits prod.splits)
qed

lemma extract_try_no_interrupt:
  assumes "no_interrupt env"
  shows "fst (extract_try env s) \<noteq> Raises KeyboardInterrupt"
  unfolding extract_try_def
  by (intro bind_no_interrupt extractall_no_interrupt [OF assms] flatten_no_interrupt [OF assms])
     (simp_all add: emit_def ret_def)

lemma dza_no_interrupt:
  assumes "no_interrupt env"
  shows "fst (download_zip_alternative env s) \<noteq> Raises KeyboardInterrupt"
proof -
  have h: "fst (except_Exception (extract_try env) (bind (emit Extract_failed) (\<lambda>_. ret False)) t)
             \<noteq> Raises KeyboardInterrupt" for t
    by (intro except_Exception_no_interrupt extract_try_no_interrupt [OF assms])
       (simp add: bind_def emit_def ret_def)
  have d: "fst (zip_download env s) \<noteq> Raises KeyboardInterrupt"
    by (simp add: zip_download_def download_file_no_interrupt [OF assms])
  show ?thesis
    using h d by (auto simp: dza_unfold split: prod.splits outcome.splits)
qed

lemma dza_returns:
  assumes "no_interrupt env"
  shows "\<exists>b. fst (download_zip_alternative env s) = Returns b"
proof (cases "fst (download_zip_alternative env s)")
  case (Returns b)
  then show ?thesis by simp
next
  case (Raises e)
  with dza_never_Exception [of env s] dza_no_interrupt [OF assms, of s] show ?thesis
    by (cases e) auto
qed

subsection \<open>The order of the two acquisition paths\<close>

lemma emitsD: "emits M m \<Longrightarrow> \<exists>msgs. console (snd (m s)) = console s @ msgs \<and> set msgs \<subseteq> M"
  by (simp add: emits_def)

lemma bind_console:
  assumes "\<And>x. emits M (f x)"
  shows "\<exists>msgs. console (snd (bind m f s)) = console (snd (m s)) @ msgs \<and> set msgs \<subseteq> M"
proof (cases "m s")
  case (Pair r s')
  show ?thesis
  proof (cases r)
    case (Returns x)
    with Pair emitsD [OF assms, of x s'] show ?thesis by (simp add: bind_def)
  next
    case (Raises e)
    with Pair show ?thesis by (simp add: bind_def)
  qed
qed

lemma starts_with:
  assumes "emits M (f ())"
  shows "\<exists>msgs. console (snd (bind (emit x) f s)) = console s @ x # msgs \<and> set msgs \<subseteq> M"
  using emitsD [OF assms, of "s\<lparr>console := console s @ [x]\<rparr>"]
  by (simp add: bind_def emit_def)

lemma dza_console:
  "\<exists>msgs. console (snd (download_zip_alternative env s)) = console s @ Step4_downloading_zip # msgs \<and>
          set msgs \<subseteq> - {Step4_downloading, Step6_dependencies}"
  unfolding download_zip_alternative_def extract_try_def
  by (rule starts_with) (intro emits_intro emits_mono [OF emits_download_file], auto)

lemma app_files_console:
  "\<exists>msgs. console (snd (download_app_files env s)) = console s @ Step4_downloading # msgs \<and>
          set msgs \<subseteq> - {Step4_downloading_zip, Step6_dependencies}"
  unfolding download_app_files_def
  by (rule starts_with) (intro emits_intro emits_mono [OF emits_download_each], auto)

lemma deps_console:
  "\<exists>msgs. console (snd (install_dependencies env s)) = console s @ Step6_dependencies # msgs \<and>
          set msgs \<subseteq> - {Step4_downloading, Step4_downloading_zip}"
  unfolding install_dependencies_def
  by (rule starts_with) (intro emits_intro, auto)

lemma run_install_console:
  "\<exists>msgs. console (snd (run_install env s)) = console s @ Step6_dependencies # msgs \<and>
          set msgs \<subseteq> - {Step4_downloading, Step4_downloading_zip}"
proof -
  from deps_console [of env s] obtain m1 where
    1: "console (snd (install_dependencies env s)) = console s @ Step6_dependencies # m1"
    and 2: "set m1 \<subseteq> - {Step4_downloading, Step4_downloading_zip}" by blast
  have "\<exists>msgs. console (snd (run_install env s)) = console (snd (install_dependencies env s)) @ msgs \<and>
          set msgs \<subseteq> - {Step4_downloading, Step4_downloading_zip}"
    unfolding run_install_def
    by (rule bind_console)
       (intro emits_intro emits_mono [OF emits_copy] emits_mono [OF emits_shortcut], auto)
  then obtain m2 where
    3: "console (snd (run_install env s)) = console (snd (install_dependencies env s)) @ m2"
    and 4: "set m2 \<subseteq> - {Step4_downloading, Step4_downloading_zip}" by blast
  show ?thesis
    using 1 2 3 4 by (intro exI [of _ "m1 @ m2"]) simp
qed

lemma step4_console:
  "\<exists>msgs. console (at_step4 env s) = console s @ Banner # msgs \<and>
          set msgs \<subseteq> - {Step4_downloading_zip, Step4_downloading, Step6_dependencies}"
proof -
  let ?M = "- {Step4_downloading_zip, Step4_downloading, Step6_dependencies}"
  have b: "console (snd (print_banner s)) = console s @ [Banner]"
    by (simp add: print_banner_def emit_def)
  have "emits ?M (check_internet env)" by (rule emits_mono [OF emits_check_internet]) auto
  from emitsD [OF this, of "snd (print_banner s)"] obtain m1 where
    1: "console (at_step2 env s) = console (snd (print_banner s)) @ m1" "set m1 \<subseteq> ?M"
    by (auto simp: at_step2_def)
  have "emits ?M (create_install_directory env)" by (rule emits_mono [OF emits_create]) auto
  from emitsD [OF this, of "at_step2 env s"] obtain m2 where
    2: "console (at_step3 env s) = console (at_step2 env s) @ m2" "set m2 \<subseteq> ?M"
    by (auto simp: at_step3_def)
  have "emits ?M (download_manifest env)" by (rule emits_mono [OF emits_manifest]) auto
  from emitsD [OF this, of "at_step3 env s"] obtain m3 where
    3: "console (at_step4 env s) = console (at_step3 env s) @ m3" "set m3 \<subseteq> ?M"
    by (auto simp: at_step4_def)
  show ?thesis
    using b 1 2 3 by (intro exI [of _ "m1 @ m2 @ m3"]) simp
qed

lemma run_guarded_console:
  "\<exists>msgs. console (snd (run_guarded env s)) = console (snd (run_try env s)) @ msgs \<and>
          set msgs \<subseteq> {Installation_cancelled, Installation_failed, Traceback} \<and>
          (\<forall>b. fst (run_try env s) = Returns b \<longrightarrow> msgs = [])"
  by (cases "run_try env s")
     (auto simp: run_guarded_def except_interrupt_or_Exception_def bind_def emit_def ret_def
        split: outcome.splits exn.splits)

lemma run_guarded_result:
  "fst (run_guarded env s) = (case fst (run_try env s) of Returns b \<Rightarrow> Returns b | Raises e \<Rightarrow> Returns False)"
  by (cases "run_try env s")
     (auto simp: run_guarded_def except_interrupt_or_Exception_def bind_def emit_def ret_def
        split: outcome.splits exn.splits)

lemma run_console: "console (snd (run env s)) = console (snd (run_guarded env (snd (print_banner s))))"
  by (simp add: run_unfold cleanup_state split: option.splits node.splits)

lemma run_try_from_step4:
  assumes "reaches_step4 env s"
  shows "run_try env (snd (print_banner s)) =
           (case download_zip_alternative env (at_step4 env s) of
              (Raises e, s5) \<Rightarrow> (Raises e, s5)
            | (Returns zip_ok, s5) \<Rightarrow>
                if zip_ok then run_install env s5
                else
                  (case download_app_files env (at_fallback env s) of
                     (Raises e, s7) \<Rightarrow> (Raises e, s7)
                   | (Returns acquired, s7) \<Rightarrow>
                       if acquired then run_install env s7 else (Returns False, s7)))"
proof -
  obtain s2 where 1: "check_internet env (snd (print_banner s)) = (Returns True, s2)"
    using assms by (cases "check_internet env (snd (print_banner s))") (simp add: reaches_step4_def)
  then have s2: "at_step2 env s = s2" by (simp add: at_step2_def)
  obtain s3 where 2: "create_install_directory env s2 = (Returns True, s3)"
    using assms s2 by (cases "create_install_directory env s2") (simp add: reaches_step4_def)
  then have s3: "at_step3 env s = s3" by (simp add: at_step3_def s2)
  obtain b s4 where 3: "download_manifest env s3 = (Returns b, s4)"
    using assms s3 by (cases "download_manifest env s3") (auto simp: reaches_step4_def)
  then have s4: "at_step4 env s = s4" by (simp add: at_step4_def s3)
  obtain rz s5 where z: "download_zip_alternative env s4 = (rz, s5)"
    by (cases "download_zip_alternative env s4")
  obtain rf s7 where f: "download_app_files env (s5\<lparr>console := console s5 @ [Trying_individual]\<rparr>) = (rf, s7)"
    by (cases "download_app_files env (s5\<lparr>console := console s5 @ [Trying_individual]\<rparr>)")
  show ?thesis
  proof (cases rz)
    case (Raises e)
    with 1 2 3 z show ?thesis by (simp add: run_try_def bind_def s4)
  next
    case (Returns zip_ok)
    show ?thesis
    proof (cases zip_ok)
      case True
      with 1 2 3 z Returns show ?thesis by (simp add: run_try_def bind_def s4 ret_def)
    next
      case False
      show ?thesis
      proof (cases rf)
        case (Raises e)
        with 1 2 3 z f Returns False show ?thesis
          by (simp add: run_try_def bind_def s4 at_fallback_def emit_def)
      next
        case (Returns acquired)
        with 1 2 3 z f \<open>rz = Returns zip_ok\<close> False show ?thesis
          by (cases acquired) (simp_all add: run_try_def bind_def s4 at_fallback_def emit_def ret_def)
      qed
    qed
  qed
qed

lemma run_try_before_step4:
  assumes "\<not> reaches_step4 env s"
  shows "fst (run_try env (snd (print_banner s))) \<noteq> Returns True \<and>
         (\<exists>msgs. console (snd (run_try env (snd (print_banner s)))) = console s @ Banner # msgs \<and>
            set msgs \<subseteq> - {Step4_downloading_zip, Step4_downloading, Step6_dependencies})"
proof -
  let ?M = "- {Step4_downloading_zip, Step4_downloading, Step6_dependencies}"
  define sb where "sb = snd (print_banner s)"
  have b: "console sb = console s @ [Banner]"
    by (simp add: sb_def print_banner_def emit_def)
  obtain r1 s2 where 1: "check_internet env sb = (r1, s2)" by (cases "check_internet env sb")
  then have s2: "at_step2 env s = s2" by (simp add: at_step2_def sb_def)
  obtain r2 s3 where 2: "create_install_directory env s2 = (r2, s3)"
    by (cases "create_install_directory env s2")
  then have s3: "at_step3 env s = s3" by (simp add: at_step3_def s2)
  obtain r3 s4 where 3: "download_manifest env s3 = (r3, s4)" by (cases "download_manifest env s3")
  have "emits ?M (check_internet env)" by (rule emits_mono [OF emits_check_internet]) auto
  from emitsD [OF this, of sb] 1 obtain m1 where
    k2: "console s2 = console sb @ m1" and m1: "set m1 \<subseteq> ?M" by auto
  have "emits ?M (create_install_directory env)" by (rule emits_mono [OF emits_create]) auto
  from emitsD [OF this, of s2] 2 obtain m2 where
    k3: "console s3 = console s2 @ m2" and m2: "set m2 \<subseteq> ?M" by auto
  have "emits ?M (download_manifest env)" by (rule emits_mono [OF emits_manifest]) auto
  from emitsD [OF this, of s3] 3 obtain m3 where
    k4: "console s4 = console s3 @ m3" and m3: "set m3 \<subseteq> ?M" by auto
  have "fst (run_try env sb) \<noteq> Returns True \<and>
        (\<exists>msgs. console (snd (run_try env sb)) = console s @ Banner # msgs \<and> set msgs \<subseteq> ?M)"
  proof (cases "r1 = Returns True")
    case False
    then have "snd (run_try env sb) = s2" and "fst (run_try env sb) \<noteq> Returns True"
      using 1 by (cases r1; simp add: run_try_def bind_def ret_def)+
    with m1 show ?thesis by (simp add: k2 b)
  next
    case online: True
    show ?thesis
    proof (cases "r2 = Returns True")
      case False
      then have "snd (run_try env sb) = s3" and "fst (run_try env sb) \<noteq> Returns True"
        using 1 2 online by (cases r2; simp add: run_try_def bind_def ret_def)+
      with m1 m2 show ?thesis by (simp add: k3 k2 b)
    next
      case prepared: True
      from assms online prepared 1 2 3 obtain e where r3: "r3 = Raises e"
        by (cases r3) (simp_all add: reaches_step4_def sb_def [symmetric] s2 s3)
      then have "snd (run_try env sb) = s4" and "fst (run_try env sb) \<noteq> Returns True"
        using 1 2 3 online prepared by (simp_all add: run_try_def bind_def ret_def)
      with m1 m2 m3 show ?thesis by (simp add: k4 k3 k2 b)
    qed
  qed
  then show ?thesis by (simp add: sb_def)
qed


lemma no_interrupt_archive_env: "no_interrupt archive_env"
  by (auto simp: no_interrupt_def archive_env_def bare_env_def offline_env_def plain_response_def)


section \<open>The claims\<close>



text \<open>
  \<^bold>\<open>C2.\<close>  \<^verbatim>\<open>download_zip_alternative\<close> prints \<^verbatim>\<open>Downloading application (ZIP)...\<close>
  first thing and \<^verbatim>\<open>download_app_files\<close> prints \<^verbatim>\<open>Downloading application...\<close> first
  thing, and nothing else prints either message: a message is on the console exactly
  when its method was called.  \<^verbatim>\<open>install_dependencies\<close> likewise marks that the run got
  past the acquisition.  In every run, from an empty console: the primary path is
  called exactly when the run reaches step 4, and then no call of the fallback comes
  before it; the fallback is called exactly when the run reaches step 4 and the
  primary path returns \<open>False\<close>; the run gets past the acquisition exactly when it
  reaches step 4 and the primary path returns \<open>True\<close>, or the primary path returns
  \<open>False\<close> and the fallback returns \<open>True\<close>; and a run that does not get past the
  acquisition returns \<open>False\<close>.
\<close>

theorem primary_first_fallback_iff_failure:
  assumes "console s = []"
  shows "(Step4_downloading_zip \<in> set (console (snd (run env s))) \<longleftrightarrow> reaches_step4 env s) \<and>
         (reaches_step4 env s \<longrightarrow>
            (\<exists>pre post. console (snd (run env s)) = pre @ Step4_downloading_zip # post \<and>
               Step4_downloading \<notin> set pre)) \<and>
         (Step4_downloading \<in> set (console (snd (run env s))) \<longleftrightarrow>
            reaches_step4 env s \<and>
            fst (download_zip_alternative env (at_step4 env s)) = Returns False) \<and>
         (Step6_dependencies \<in> set (console (snd (run env s))) \<longleftrightarrow>
            reaches_step4 env s \<and>
            (fst (download_zip_alternative env (at_step4 env s)) = Returns True \<or>
             fst (download_zip_alternative env (at_step4 env s)) = Returns False \<and>
             fst (download_app_files env (at_fallback env s)) = Returns True)) \<and>
         (Step6_dependencies \<notin> set (console (snd (run env s))) \<longrightarrow>
            fst (run env s) = Returns False)"
proof -
  define sb where "sb = snd (print_banner s)"
  define s4 where "s4 = at_step4 env s"
  define s6 where "s6 = at_fallback env s"
  define c where "c = console (snd (run env s))"
  obtain rz s5 where z: "download_zip_alternative env s4 = (rz, s5)"
    by (cases "download_zip_alternative env s4")
  obtain rf s7 where f: "download_app_files env s6 = (rf, s7)"
    by (cases "download_app_files env s6")
  from run_guarded_console [of env sb] obtain hm where
    g: "console (snd (run_guarded env sb)) = console (snd (run_try env sb)) @ hm"
    and hm: "set hm \<subseteq> {Installation_cancelled, Installation_failed, Traceback}"
    by blast
  have cg: "c = console (snd (run_try env sb)) @ hm"
    by (simp add: c_def run_console sb_def [symmetric] g)
  have res: "fst (run env s) = (case fst (run_try env sb) of Returns b \<Rightarrow> Returns b | Raises e \<Rightarrow> Returns False)"
    by (simp add: run_unfold sb_def [symmetric] run_guarded_result)
  have hm4: "Step4_downloading_zip \<notin> set hm" "Step4_downloading \<notin> set hm" "Step6_dependencies \<notin> set hm"
    using hm by auto
  have goal: "(Step4_downloading_zip \<in> set c \<longleftrightarrow> reaches_step4 env s) \<and>
         (reaches_step4 env s \<longrightarrow>
            (\<exists>pre post. c = pre @ Step4_downloading_zip # post \<and> Step4_downloading \<notin> set pre)) \<and>
         (Step4_downloading \<in> set c \<longleftrightarrow> reaches_step4 env s \<and> rz = Returns False) \<and>
         (Step6_dependencies \<in> set c \<longleftrightarrow>
            reaches_step4 env s \<and> (rz = Returns True \<or> rz = Returns False \<and> rf = Returns True)) \<and>
         (Step6_dependencies \<notin> set c \<longrightarrow> fst (run env s) = Returns False)"
  proof (cases "reaches_step4 env s")
    case False
    from run_try_before_step4 [OF False] assms obtain m where
      nt: "fst (run_try env sb) \<noteq> Returns True"
      and k: "console (snd (run_try env sb)) = Banner # m"
      and m: "set m \<subseteq> - {Step4_downloading_zip, Step4_downloading, Step6_dependencies}"
      by (auto simp: sb_def)
    have m': "Step4_downloading_zip \<notin> set m" "Step4_downloading \<notin> set m" "Step6_dependencies \<notin> set m"
      using m by auto
    have "fst (run env s) = Returns False"
      using nt by (cases "fst (run_try env sb)") (auto simp: res)
    then show ?thesis using False m' hm4 by (simp add: cg k)
  next
    case reaches: True
    from step4_console [of env s] assms obtain m4 where
      k4: "console s4 = Banner # m4"
      and m4: "set m4 \<subseteq> - {Step4_downloading_zip, Step4_downloading, Step6_dependencies}"
      by (auto simp: s4_def)
    from dza_console [of env s4] z obtain mz where
      k5: "console s5 = console s4 @ Step4_downloading_zip # mz"
      and mz: "set mz \<subseteq> - {Step4_downloading, Step6_dependencies}"
      by auto
    have k6: "console s6 = console s5 @ [Trying_individual]"
      using z by (simp add: s6_def at_fallback_def s4_def [symmetric] emit_def)
    from app_files_console [of env s6] f obtain mf where
      k7: "console s7 = console s6 @ Step4_downloading # mf"
      and mf: "set mf \<subseteq> - {Step4_downloading_zip, Step6_dependencies}"
      by auto
    note rt = run_try_from_step4 [OF reaches, folded sb_def s4_def s6_def]
    have m4': "Step4_downloading \<notin> set m4" "Step6_dependencies \<notin> set m4" using m4 by auto
    have mz': "Step4_downloading \<notin> set mz" "Step6_dependencies \<notin> set mz" using mz by auto
    have mf': "Step6_dependencies \<notin> set mf" using mf by auto
    have pre: "Step4_downloading_zip \<in> set c \<and>
               (\<exists>pre post. c = pre @ Step4_downloading_zip # post \<and> Step4_downloading \<notin> set pre)"
      if "\<exists>rest. console (snd (run_try env sb)) = console s5 @ rest"
    proof -
      from that obtain rest where "console (snd (run_try env sb)) = console s5 @ rest" by blast
      then have eq: "c = (Banner # m4) @ Step4_downloading_zip # (mz @ rest @ hm)"
        by (simp add: cg k5 k4)
      moreover have "Step4_downloading \<notin> set (Banner # m4)" using m4' by simp
      ultimately have "\<exists>pre post. c = pre @ Step4_downloading_zip # post \<and> Step4_downloading \<notin> set pre"
        by blast
      moreover have "Step4_downloading_zip \<in> set c" by (simp add: eq)
      ultimately show ?thesis by blast
    qed
    show ?thesis
    proof (cases rz)
      case (Raises e)
      have t: "console (snd (run_try env sb)) = console s5 @ []" and r: "fst (run_try env sb) = Raises e"
        using Raises z by (simp_all add: rt)
      have "fst (run env s) = Returns False" using r by (simp add: res)
      then show ?thesis
        using pre t Raises reaches m4' mz' hm4 by (auto simp: cg k5 k4)
    next
      case rz: (Returns zb)
      show ?thesis
      proof (cases zb)
        case True
        from run_install_console [of env s5] obtain mi where
          ki: "console (snd (run_install env s5)) = console s5 @ Step6_dependencies # mi"
          and mi: "set mi \<subseteq> - {Step4_downloading, Step4_downloading_zip}"
          by blast
        have t: "console (snd (run_try env sb)) = console s5 @ Step6_dependencies # mi"
          using True rz z by (simp add: rt ki)
        have mi': "Step4_downloading \<notin> set mi" using mi by auto
        show ?thesis
          using pre t True rz reaches m4' mz' mi' hm4 by (auto simp: cg k5 k4)
      next
        case False
        show ?thesis
        proof (cases "rf = Returns True")
          case True
          from run_install_console [of env s7] obtain mi where
            ki: "console (snd (run_install env s7)) = console s7 @ Step6_dependencies # mi"
            and mi: "set mi \<subseteq> - {Step4_downloading, Step4_downloading_zip}"
            by blast
          have t: "console (snd (run_try env sb)) =
                     console s5 @ Trying_individual # Step4_downloading # mf @ Step6_dependencies # mi"
            using True False rz z f by (simp add: rt ki k7 k6)
          show ?thesis
            using pre t True False rz reaches by (auto simp: cg)
        next
          case nt: False
          have t: "console (snd (run_try env sb)) = console s5 @ Trying_individual # Step4_downloading # mf"
            and r: "(\<exists>e. fst (run_try env sb) = Raises e) \<or> fst (run_try env sb) = Returns False"
            using nt False rz z f by (cases rf; auto simp: rt k7 k6)+
          have "fst (run env s) = Returns False" using r by (auto simp: res)
          then show ?thesis
            using pre t nt False rz reaches m4' mz' mf' hm4 by (auto simp: cg k5 k4)
        qed
      qed
    qed
  qed
  have "fst (download_zip_alternative env (at_step4 env s)) = rz"
    and "fst (download_app_files env (at_fallback env s)) = rf"
    using z f by (simp_all add: s4_def s6_def)
  with goal show ?thesis by (simp add: c_def)
qed

text \<open>
  Four runs: the archive is missing and the raw files download (fallback called,
  the run goes on); the archive downloads (fallback not called, the run goes on);
  nothing downloads (both paths fail, the run stops and returns \<open>False\<close>); offline
  (step 4 is not reached, the primary path is not called).
\<close>

theorem primary_first_fallback_iff_failure_witness:
  "console (init None None) = [] \<and>
   reaches_step4 raw_files_env (init None None) \<and>
   fst (download_zip_alternative raw_files_env (at_step4 raw_files_env (init None None))) = Returns False \<and>
   Step4_downloading \<in> set (console (snd (run raw_files_env (init None None)))) \<and>
   fst (download_app_files raw_files_env (at_fallback raw_files_env (init None None))) = Returns True \<and>
   Step6_dependencies \<in> set (console (snd (run raw_files_env (init None None)))) \<and>
   reaches_step4 archive_env (init None None) \<and>
   fst (download_zip_alternative archive_env (at_step4 archive_env (init None None))) = Returns True \<and>
   Step4_downloading_zip \<in> set (console (snd (run archive_env (init None None)))) \<and>
   Step4_downloading \<notin> set (console (snd (run archive_env (init None None)))) \<and>
   Step6_dependencies \<in> set (console (snd (run archive_env (init None None)))) \<and>
   reaches_step4 bare_env (init None None) \<and>
   fst (download_zip_alternative bare_env (at_step4 bare_env (init None None))) = Returns False \<and>
   fst (download_app_files bare_env (at_fallback bare_env (init None None))) = Returns False \<and>
   Step6_dependencies \<notin> set (console (snd (run bare_env (init None None)))) \<and>
   fst (run bare_env (init None None)) = Returns False \<and>
   \<not> reaches_step4 offline_env (init None None) \<and>
   Step4_downloading_zip \<notin> set (console (snd (run offline_env (init None None))))"
proof -
  let ?s = "init None None"
  have c: "console ?s = []" by (simp add: init_def)
  have r1: "reaches_step4 raw_files_env ?s"
    unfolding reaches_step4_def by (intro conjI exI [of _ True]; code_simp)
  have r2: "reaches_step4 archive_env ?s"
    unfolding reaches_step4_def by (intro conjI exI [of _ False]; code_simp)
  have r3: "reaches_step4 bare_env ?s"
    unfolding reaches_step4_def by (intro conjI exI [of _ False]; code_simp)
  have r4: "\<not> reaches_step4 offline_env ?s"
  proof -
    have "fst (check_internet offline_env (snd (print_banner ?s))) = Returns False" by code_simp
    then show ?thesis by (simp add: reaches_step4_def)
  qed
  have z1: "fst (download_zip_alternative raw_files_env (at_step4 raw_files_env ?s)) = Returns False"
    and f1: "fst (download_app_files raw_files_env (at_fallback raw_files_env ?s)) = Returns True"
    and z2: "fst (download_zip_alternative archive_env (at_step4 archive_env ?s)) = Returns True"
    and z3: "fst (download_zip_alternative bare_env (at_step4 bare_env ?s)) = Returns False"
    and f3: "fst (download_app_files bare_env (at_fallback bare_env ?s)) = Returns False"
    by code_simp+
  note t1 = primary_first_fallback_iff_failure [OF c, of raw_files_env]
  note t2 = primary_first_fallback_iff_failure [OF c, of archive_env]
  note t3 = primary_first_fallback_iff_failure [OF c, of bare_env]
  note t4 = primary_first_fallback_iff_failure [OF c, of offline_env]
  from t1 r1 z1 f1 have "Step4_downloading \<in> set (console (snd (run raw_files_env ?s)))"
    and "Step6_dependencies \<in> set (console (snd (run raw_files_env ?s)))"
    by simp_all
  moreover from t2 r2 z2 have "Step4_downloading_zip \<in> set (console (snd (run archive_env ?s)))"
    and "Step4_downloading \<notin> set (console (snd (run archive_env ?s)))"
    and "Step6_dependencies \<in> set (console (snd (run archive_env ?s)))"
    by simp_all
  moreover from t3 r3 z3 f3 have "Step6_dependencies \<notin> set (console (snd (run bare_env ?s)))"
    by simp
  moreover from this t3 have "fst (run bare_env ?s) = Returns False"
    by blast
  moreover from t4 r4 have "Step4_downloading_zip \<notin> set (console (snd (run offline_env ?s)))"
    by simp
  ultimately show ?thesis using c r1 r2 r3 r4 z1 f1 z2 z3 f3 by simp
qed

text \<open>
  \<^bold>\<open>C3.\<close>  The manifest endpoint answers 200 with a JSON envelope whose \<^verbatim>\<open>content\<close>
  does not decode.  \<^verbatim>\<open>download_manifest\<close> has stored the envelope in
  \<^verbatim>\<open>self.manifest\<close> before the decoding raises; the handler prints
  \<^verbatim>\<open>Using default file list...\<close> and returns \<open>True\<close>, but the manifest in use is the
  envelope and not the default.  The run goes on to the acquisition, where the
  fallback finds no files.
\<close>

theorem manifest_clobbered_by_failed_decode:
  "fst (download_manifest broken_manifest_env (init None None)) = Returns True \<and>
   console (snd (download_manifest broken_manifest_env (init None None))) =
     [Step3_fetching_list, Manifest_warning, Using_default_list] \<and>
   manifest (snd (download_manifest broken_manifest_env (init None None))) = envelope \<and>
   envelope \<noteq> default_manifest \<and>
   No_files \<in> set (console (snd (run broken_manifest_env (init None None)))) \<and>
   fst (run broken_manifest_env (init None None)) = Returns False"
  by code_simp

text \<open>
  \<^bold>\<open>C4.\<close>  The archive holds the project folder with \<^verbatim>\<open>main_app.py\<close>.  After
  \<^verbatim>\<open>download_zip_alternative\<close> the file stands in the staging root and still stands
  in the project folder: the entry is copied, not moved.  The copy step then installs
  the archive and the folder beside the flattened file.
\<close>

theorem flatten_copies_and_keeps_folder:
  "fst (download_zip_alternative archive_env (init None (Some (Dir [])))) = Returns True \<and>
   staged (snd (download_zip_alternative archive_env (init None (Some (Dir []))))) ''main_app.py'' =
     Some (File [1, 2, 3] 0) \<and>
   staged (snd (download_zip_alternative archive_env (init None (Some (Dir []))))) extracted_name =
     Some (Dir [(''main_app.py'', File [1, 2, 3] 0)]) \<and>
   install_dir (snd (run archive_env (init None None))) =
     Some (Dir [(''app.zip'', File [0x50, 0x4B, 3, 4] 0),
                (extracted_name, Dir [(''main_app.py'', File [1, 2, 3] 0)]),
                (''main_app.py'', File [1, 2, 3] 0)])"
  by code_simp













text \<open>
  \<^bold>\<open>C10.\<close>  \<^verbatim>\<open>cleanup\<close> never raises.  When its \<^verbatim>\<open>shutil.rmtree\<close> raises on an
  existing staging directory, the directory is still there, with what the call left
  of its entries, and nothing else changes.  What \<^verbatim>\<open>run\<close> returns depends neither on
  whether that \<^verbatim>\<open>rmtree\<close> raises nor on what it leaves behind.
\<close>

theorem cleanup_swallows:
  "fst (cleanup env s) = Returns () \<and>
   (fault env Cleanup_rmtree = Some e \<and> temp_dir s = Some (Dir es) \<longrightarrow>
      snd (cleanup env s) = s\<lparr>temp_dir := Some (Dir (rmtree_remains env es))\<rparr>) \<and>
   fst (run (env\<lparr>fault := (fault env)(Cleanup_rmtree := x), rmtree_remains := r\<rparr>) s0) =
     fst (run env s0)"
  by (simp add: cleanup_returns cleanup_state run_unfold sbc_run_guarded [OF same_but_cleanup_upd])

text \<open>The example: the staging directory cannot be removed, and keeps its entries.\<close>

theorem cleanup_swallows_locked:
  "fst (cleanup locked_env (init None (Some (Dir staging_example)))) = Returns () \<and>
   snd (cleanup locked_env (init None (Some (Dir staging_example)))) =
     init None (Some (Dir staging_example)) \<and>
   fst (run (locked_env\<lparr>fault := (fault locked_env)(Cleanup_rmtree := None),
                          rmtree_remains := (\<lambda>es. [])\<rparr>) (init None None)) =
     fst (run locked_env (init None None))"
  using cleanup_swallows [where env = locked_env and s = "init None (Some (Dir staging_example))"
      and e = Exception and es = staging_example and x = None and r = "\<lambda>es. []"
      and ?s0.0 = "init None None"]
  by (simp add: locked_env_def bare_env_def offline_env_def init_def)

end
